theory Spec2Isabelle
  imports Complex_Main "HOL-Library.Word" "HOL-Library.Sublist"
begin

section \<open>JavaScript strings\<close>

text \<open>
  A JavaScript string is a sequence of 16-bit UTF-16 code units; \<open>length\<close>, \<open>indexOf\<close>,
  \<open>substring\<close> and the regular expressions of the source all count code units.
  \<open>str\<close> embeds an ASCII literal of the source.
\<close>

type_synonym jschar = "16 word"
type_synonym jsstring = "jschar list"

definition str :: "string \<Rightarrow> jsstring" where
  "str s = map of_char s"

fun joinLines :: "string list \<Rightarrow> string" where
  "joinLines [] = []"
| "joinLines [l] = l"
| "joinLines (l # ls) = l @ CHR 0x0A # joinLines ls"

text \<open>
  \<open>String.prototype.trim\<close> removes the code units of the ECMAScript productions
  WhiteSpace and LineTerminator from both ends.
\<close>

definition isWhiteSpace :: "jschar \<Rightarrow> bool" where
  "isWhiteSpace c \<longleftrightarrow>
     c \<in> {0x09, 0x0A, 0x0B, 0x0C, 0x0D, 0x20, 0xA0, 0x1680, 0x2028, 0x2029,
          0x202F, 0x205F, 0x3000, 0xFEFF}
     \<or> (0x2000 \<le> c \<and> c \<le> 0x200A)"

definition trim :: "jsstring \<Rightarrow> jsstring" where
  "trim s = rev (dropWhile isWhiteSpace (rev (dropWhile isWhiteSpace s)))"

section \<open>Types of the application\<close>

datatype City = Dubai | Sharjah | AbuDhabi

fun cityName :: "City \<Rightarrow> jsstring" where
  "cityName Dubai = str ''Dubai''"
| "cityName Sharjah = str ''Sharjah''"
| "cityName AbuDhabi = str ''Abu Dhabi''"

text \<open>
  \<open>lat\<close> and \<open>lng\<close> are JavaScript numbers. No arithmetic is done on them: they are
  copied into the grounding hint and printed into the prompt. They are modelled as
  reals, and the printing of a number inside a template literal is the parameter
  \<open>numToString\<close> of the builder.
\<close>

record LocationState =
  lat :: real
  lng :: real
  usingGPS :: bool

record LatLng =
  latitude :: real
  longitude :: real

text \<open>
  The argument of \<open>ai.models.generateContent\<close>: the prompt and the optional
  \<open>retrievalConfig\<close> (\<open>toolConfig\<close> is \<open>undefined\<close> when it is absent). The model name,
  the tool list and the system instruction are constants of the source.
\<close>

record GenerateContentRequest =
  contents :: jsstring
  retrievalConfig :: "LatLng option"

section \<open>The query builder (first half of \<open>fetchRecommendations\<close>)\<close>

definition jsonInstruction :: jsstring where
  \<open>jsonInstruction = str (joinLines
    ['''',
     ''  Output strictly a valid JSON array. Do not include any markdown formatting.'',
     ''  ['',
     ''    {'',
     ''      "name": "Name",'',
     ''      "rating": 4.5,'',
     ''      "reviewCount": 120,'',
     ''      "priceLevel": "$$",'',
     ''      "cuisine": "Cuisine",'',
     ''      "address": "Full address here",'',
     ''      "lat": 25.1234,'',
     ''      "lng": 55.1234,'',
     ''      "phoneNumber": "+971 4 123 4567",'',
     ''      "aiSummary": "10 words max on why it's good.",'',
     ''      "likelyAggregators": ["Talabat", "Deliveroo"]'',
     ''    }'',
     ''  ]'',
     ''  ''])\<close>

definition trendingQuery :: jsstring where
  "trendingQuery = str ''popular trending restaurants''"

definition chineseQuery :: jsstring where
  "chineseQuery = str (''Chinese restaurants, including options in Motor City, Sports City, ''
     @ ''and Dubai Production City. Also include popular Fusion Chinese (Indo-Chinese) spots.'')"

definition queryTerm :: "jsstring \<Rightarrow> jsstring" where
  "queryTerm cuisine =
     (if cuisine = str ''Trending'' then trendingQuery
      else if cuisine = str ''Chinese'' then chineseQuery
      else cuisine @ str '' restaurants'')"

text \<open>The custom query wins when it is not blank; it is used as typed.\<close>

definition foodQuery :: "jsstring \<Rightarrow> jsstring \<Rightarrow> jsstring" where
  "foodQuery cuisine customQuery =
     (if trim customQuery \<noteq> [] then customQuery else queryTerm cuisine)"

definition gpsTail :: jsstring where
  \<open>gpsTail = str (joinLines
    [''). '',
     ''    Only include places with a rating of 4.0 or higher.'',
     ''    Analyze reviews to infer availability on delivery apps (Talabat, Deliveroo, Noon, Careem, Smash).'',
     ''    Find the official phone number for reservations.'',
     ''    Get the full address.'',
     ''    Get the precise latitude and longitude for the map.'',
     ''    Provide a very short, punchy "Concierge Verdict" on why I should eat here.'',
     ''    '']) @ jsonInstruction\<close>

definition cityTail :: jsstring where
  \<open>cityTail = str (joinLines
    ['', UAE.'',
     ''    Only include places with a rating of 4.0 or higher.'',
     ''    Analyze reviews to infer availability on delivery apps.'',
     ''    Find the official phone number for reservations.'',
     ''    Get the full address.'',
     ''    Get the precise latitude and longitude for the map.'',
     ''    Provide a very short, punchy "Concierge Verdict".'',
     ''    '']) @ jsonInstruction\<close>

definition gpsPrompt :: "(real \<Rightarrow> jsstring) \<Rightarrow> LocationState \<Rightarrow> jsstring \<Rightarrow> jsstring" where
  \<open>gpsPrompt numToString location fq =
     str ''Find 30 distinct places matching "'' @ fq
     @ str ''" within a 8km radius of my current location (lat: '' @ numToString (lat location)
     @ str '', lng: '' @ numToString (lng location) @ gpsTail\<close>

definition cityPrompt :: "City \<Rightarrow> jsstring \<Rightarrow> jsstring" where
  \<open>cityPrompt city fq =
     str ''Find 30 distinct places matching "'' @ fq @ str ''" in '' @ cityName city @ cityTail\<close>

definition buildRequest ::
  "(real \<Rightarrow> jsstring) \<Rightarrow> LocationState \<Rightarrow> City \<Rightarrow> jsstring \<Rightarrow> jsstring \<Rightarrow> GenerateContentRequest" where
  "buildRequest numToString location city cuisine customQuery =
     (let fq = foodQuery cuisine customQuery in
      if usingGPS location
      then \<lparr>contents = gpsPrompt numToString location fq,
            retrievalConfig = Some \<lparr>latitude = lat location, longitude = lng location\<rparr>\<rparr>
      else \<lparr>contents = cityPrompt city fq, retrievalConfig = None\<rparr>)"

section \<open>The response normalizer (second half of \<open>fetchRecommendations\<close>)\<close>

text \<open>
  \<open>stripAll pat text\<close> is \<open>text.replace(/pat/g, '')\<close> for a pattern without
  metacharacters: the occurrences are found from left to right, the search resumes
  after each one, and the text that remains is not scanned again.
\<close>

function stripAll :: "'a list \<Rightarrow> 'a list \<Rightarrow> 'a list" where
  "stripAll pat [] = []"
| "stripAll pat (x # xs) =
     (if pat \<noteq> [] \<and> prefix pat (x # xs)
      then stripAll pat (drop (length pat) (x # xs))
      else x # stripAll pat xs)"
  by pat_completeness auto
termination
  by (relation "measure (\<lambda>(pat, text). length text)") (auto simp: neq_Nil_conv)

text \<open>\<open>indexOf\<close> and \<open>lastIndexOf\<close> with a one-character argument; -1 when it is absent.\<close>

fun indexOf :: "jsstring \<Rightarrow> jschar \<Rightarrow> int" where
  "indexOf [] c = -1"
| "indexOf (x # xs) c =
     (if x = c then 0 else (let i = indexOf xs c in if i = -1 then -1 else i + 1))"

definition lastIndexOf :: "jsstring \<Rightarrow> jschar \<Rightarrow> int" where
  "lastIndexOf s c =
     (let i = indexOf (rev s) c in if i = -1 then -1 else int (length s) - 1 - i)"

text \<open>
  \<open>substring\<close> clamps both indices to the length of the string and swaps them when
  the first is the greater.
\<close>

definition substring :: "jsstring \<Rightarrow> int \<Rightarrow> int \<Rightarrow> jsstring" where
  "substring s a b =
     (let n = int (length s);
          a' = min (max a 0) n;
          b' = min (max b 0) n;
          lo = min a' b';
          hi = max a' b'
      in take (nat (hi - lo)) (drop (nat lo) s))"

definition fenceJson :: jsstring where
  "fenceJson = str ''```json''"

definition fence :: jsstring where
  "fence = str ''```''"

definition normalizeText :: "jsstring \<Rightarrow> jsstring" where
  "normalizeText text =
     (let t = trim (stripAll fence (stripAll fenceJson text));
          startIndex = indexOf t 0x5B;
          endIndex = lastIndexOf t 0x5D
      in if startIndex \<noteq> -1 \<and> endIndex \<noteq> -1
         then substring t startIndex (endIndex + 1)
         else t)"

section \<open>\<open>JSON.parse\<close>\<close>

text \<open>
  \<open>JSON.parse\<close> is a built-in of the language; it is modelled by a parser for the
  JSON grammar of ECMAScript (whitespace is space, tab, line feed and carriage
  return; no trailing commas; strings without raw control characters). Limits of an
  engine on the depth of nesting are not modelled.

  The value that \<open>JSON.parse\<close> returns. A number is kept as the exact decimal value of
  its literal (the engine rounds it to a double, see \<open>isZeroNumber\<close>); an object is the
  list of its members in the order of the text, where a later member of the same name
  overrides an earlier one.
\<close>

datatype json =
    JNull
  | JBool bool
  | JNumber rat
  | JString jsstring
  | JArray "json list"
  | JObject "(jsstring \<times> json) list"

definition isJsonWs :: "jschar \<Rightarrow> bool" where
  "isJsonWs c \<longleftrightarrow> c = 0x20 \<or> c = 0x09 \<or> c = 0x0A \<or> c = 0x0D"

definition skipWs :: "jsstring \<Rightarrow> jsstring" where
  "skipWs s = dropWhile isJsonWs s"

definition isDigit :: "jschar \<Rightarrow> bool" where
  "isDigit c \<longleftrightarrow> 0x30 \<le> c \<and> c \<le> 0x39"

definition digitsVal :: "jsstring \<Rightarrow> nat" where
  "digitsVal ds = foldl (\<lambda>a c. 10 * a + (unat c - 48)) 0 ds"

definition hexVal :: "jschar \<Rightarrow> jschar option" where
  "hexVal c =
     (if 0x30 \<le> c \<and> c \<le> 0x39 then Some (c - 0x30)
      else if 0x41 \<le> c \<and> c \<le> 0x46 then Some (c - 0x41 + 10)
      else if 0x61 \<le> c \<and> c \<le> 0x66 then Some (c - 0x61 + 10)
      else None)"

text \<open>The character after a backslash, other than \<open>u\<close>.\<close>

definition escapeChar :: "jschar \<Rightarrow> jschar option" where
  "escapeChar e =
     (if e = 0x22 then Some 0x22
      else if e = 0x5C then Some 0x5C
      else if e = 0x2F then Some 0x2F
      else if e = 0x62 then Some 0x08
      else if e = 0x66 then Some 0x0C
      else if e = 0x6E then Some 0x0A
      else if e = 0x72 then Some 0x0D
      else if e = 0x74 then Some 0x09
      else None)"

text \<open>
  The characters of a string after its opening quote, up to the closing quote: the
  decoded string and the text after the closing quote.
\<close>

fun parseStringBody :: "jsstring \<Rightarrow> (jsstring \<times> jsstring) option" where
  "parseStringBody [] = None"
| "parseStringBody (c # cs) =
     (if c = 0x22 then Some ([], cs)
      else if c = 0x5C then
        (case cs of
           [] \<Rightarrow> None
         | e # es \<Rightarrow>
             if e = 0x75 then
               (case es of
                  h1 # h2 # h3 # h4 # rest \<Rightarrow>
                    (case (hexVal h1, hexVal h2, hexVal h3, hexVal h4) of
                       (Some d1, Some d2, Some d3, Some d4) \<Rightarrow>
                         (case parseStringBody rest of
                            None \<Rightarrow> None
                          | Some (s, r) \<Rightarrow> Some ((4096 * d1 + 256 * d2 + 16 * d3 + d4) # s, r))
                     | _ \<Rightarrow> None)
                | _ \<Rightarrow> None)
             else
               (case escapeChar e of
                  None \<Rightarrow> None
                | Some x \<Rightarrow>
                    (case parseStringBody es of
                       None \<Rightarrow> None
                     | Some (s, r) \<Rightarrow> Some (x # s, r))))
      else if c < 0x20 then None
      else (case parseStringBody cs of
              None \<Rightarrow> None
            | Some (s, r) \<Rightarrow> Some (c # s, r)))"

text \<open>
  A number: an optional minus sign, an integer part without a leading zero, an optional
  fraction and an optional exponent.
\<close>

definition parseInt :: "jsstring \<Rightarrow> (nat \<times> jsstring) option" where
  "parseInt s =
     (case s of
        [] \<Rightarrow> None
      | c # cs \<Rightarrow>
          if c = 0x30 then Some (0, cs)
          else if isDigit c then Some (digitsVal (takeWhile isDigit s), dropWhile isDigit s)
          else None)"

definition parseFrac :: "jsstring \<Rightarrow> (rat \<times> jsstring) option" where
  "parseFrac s =
     (case s of
        [] \<Rightarrow> Some (0, s)
      | c # cs \<Rightarrow>
          if c = 0x2E then
            (let ds = takeWhile isDigit cs in
             if ds = [] then None
             else Some (of_nat (digitsVal ds) / 10 ^ length ds, dropWhile isDigit cs))
          else Some (0, s))"

definition parseExpDigits :: "bool \<Rightarrow> jsstring \<Rightarrow> (int \<times> jsstring) option" where
  "parseExpDigits neg s =
     (let ds = takeWhile isDigit s in
      if ds = [] then None
      else Some (if neg then - int (digitsVal ds) else int (digitsVal ds), dropWhile isDigit s))"

definition parseExp :: "jsstring \<Rightarrow> (int \<times> jsstring) option" where
  "parseExp s =
     (case s of
        [] \<Rightarrow> Some (0, s)
      | c # cs \<Rightarrow>
          if c = 0x65 \<or> c = 0x45 then
            (case cs of
               [] \<Rightarrow> None
             | d # ds \<Rightarrow>
                 if d = 0x2B then parseExpDigits False ds
                 else if d = 0x2D then parseExpDigits True ds
                 else parseExpDigits False cs)
          else Some (0, s))"

definition scale10 :: "rat \<Rightarrow> int \<Rightarrow> rat" where
  "scale10 q e = (if 0 \<le> e then q * 10 ^ nat e else q / 10 ^ nat (- e))"

definition parseUnsigned :: "jsstring \<Rightarrow> (rat \<times> jsstring) option" where
  "parseUnsigned s =
     (case parseInt s of
        None \<Rightarrow> None
      | Some (i, r1) \<Rightarrow>
          (case parseFrac r1 of
             None \<Rightarrow> None
           | Some (f, r2) \<Rightarrow>
               (case parseExp r2 of
                  None \<Rightarrow> None
                | Some (e, r3) \<Rightarrow> Some (scale10 (of_nat i + f) e, r3))))"

definition parseNumber :: "jsstring \<Rightarrow> (rat \<times> jsstring) option" where
  "parseNumber s =
     (case s of
        [] \<Rightarrow> None
      | c # cs \<Rightarrow>
          if c = 0x2D
          then (case parseUnsigned cs of None \<Rightarrow> None | Some (q, r) \<Rightarrow> Some (- q, r))
          else parseUnsigned s)"

text \<open>
  The recursive descent over values. The first argument bounds the number of nested
  calls; \<open>JSON_parse\<close> starts it at twice the length of the text plus two, which the
  descent cannot use up, as each array, object or further element takes a character.
  \<open>parseElements\<close> reads the elements of an array and its closing bracket,
  \<open>parseMembers\<close> the members of an object and its closing brace.
\<close>

fun parseValue :: "nat \<Rightarrow> jsstring \<Rightarrow> (json \<times> jsstring) option"
  and parseElements :: "nat \<Rightarrow> jsstring \<Rightarrow> (json list \<times> jsstring) option"
  and parseMembers :: "nat \<Rightarrow> jsstring \<Rightarrow> ((jsstring \<times> json) list \<times> jsstring) option"
where
  "parseValue 0 s = None"
| "parseValue (Suc n) s =
     (case skipWs s of
        [] \<Rightarrow> None
      | c # cs \<Rightarrow>
          if c = 0x5B then
            (case skipWs cs of
               [] \<Rightarrow> None
             | d # ds \<Rightarrow>
                 if d = 0x5D then Some (JArray [], ds)
                 else (case parseElements n cs of
                         None \<Rightarrow> None
                       | Some (vs, r) \<Rightarrow> Some (JArray vs, r)))
          else if c = 0x7B then
            (case skipWs cs of
               [] \<Rightarrow> None
             | d # ds \<Rightarrow>
                 if d = 0x7D then Some (JObject [], ds)
                 else (case parseMembers n cs of
                         None \<Rightarrow> None
                       | Some (ms, r) \<Rightarrow> Some (JObject ms, r)))
          else if c = 0x22 then
            (case parseStringBody cs of
               None \<Rightarrow> None
             | Some (x, r) \<Rightarrow> Some (JString x, r))
          else if c = 0x2D \<or> isDigit c then
            (case parseNumber (c # cs) of
               None \<Rightarrow> None
             | Some (q, r) \<Rightarrow> Some (JNumber q, r))
          else if prefix (str ''true'') (c # cs) then Some (JBool True, drop 4 (c # cs))
          else if prefix (str ''false'') (c # cs) then Some (JBool False, drop 5 (c # cs))
          else if prefix (str ''null'') (c # cs) then Some (JNull, drop 4 (c # cs))
          else None)"
| "parseElements 0 s = None"
| "parseElements (Suc n) s =
     (case parseValue n s of
        None \<Rightarrow> None
      | Some (v, r) \<Rightarrow>
          (case skipWs r of
             [] \<Rightarrow> None
           | c # cs \<Rightarrow>
               if c = 0x2C then
                 (case parseElements n cs of
                    None \<Rightarrow> None
                  | Some (vs, r') \<Rightarrow> Some (v # vs, r'))
               else if c = 0x5D then Some ([v], cs)
               else None))"
| "parseMembers 0 s = None"
| "parseMembers (Suc n) s =
     (case skipWs s of
        [] \<Rightarrow> None
      | q # qs \<Rightarrow>
          if q = 0x22 then
            (case parseStringBody qs of
               None \<Rightarrow> None
             | Some (k, r0) \<Rightarrow>
                 (case skipWs r0 of
                    [] \<Rightarrow> None
                  | colon # r1 \<Rightarrow>
                      if colon = 0x3A then
                        (case parseValue n r1 of
                           None \<Rightarrow> None
                         | Some (v, r) \<Rightarrow>
                             (case skipWs r of
                                [] \<Rightarrow> None
                              | c # cs \<Rightarrow>
                                  if c = 0x2C then
                                    (case parseMembers n cs of
                                       None \<Rightarrow> None
                                     | Some (ms, r') \<Rightarrow> Some ((k, v) # ms, r'))
                                  else if c = 0x7D then Some ([(k, v)], cs)
                                  else None))
                      else None))
          else None)"

text \<open>\<open>None\<close> is the \<open>SyntaxError\<close> that \<open>JSON.parse\<close> throws.\<close>

definition JSON_parse :: "jsstring \<Rightarrow> json option" where
  "JSON_parse text =
     (case parseValue (2 * length text + 2) text of
        None \<Rightarrow> None
      | Some (v, r) \<Rightarrow> if skipWs r = [] then Some v else None)"

section \<open>\<open>fetchRecommendations\<close>\<close>

text \<open>
  The call of the generation service either rejects or resolves with a response whose
  \<open>text\<close> may be \<open>undefined\<close>. The \<open>catch\<close> block of \<open>fetchRecommendations\<close> logs and
  rethrows, so the caller sees the rejection of the service (\<open>UpstreamError\<close>) or the
  \<open>SyntaxError\<close> of \<open>JSON.parse\<close> (\<open>MalformedResponseError\<close>).
\<close>

datatype fetchError = UpstreamError | MalformedResponseError

datatype response = Rejected | Replied "jsstring option"

text \<open>
  The result is typed \<open>Restaurant[]\<close> by a cast that checks nothing: it is whatever
  \<open>JSON.parse\<close> returned.
\<close>

definition parseReply :: "response \<Rightarrow> fetchError + json" where
  "parseReply r =
     (case r of
        Rejected \<Rightarrow> Inl UpstreamError
      | Replied None \<Rightarrow> Inr (JArray [])
      | Replied (Some text) \<Rightarrow>
          if text = [] then Inr (JArray [])
          else (case JSON_parse (normalizeText text) of
                  None \<Rightarrow> Inl MalformedResponseError
                | Some v \<Rightarrow> Inr v))"

definition fetchRecommendations ::
  "(real \<Rightarrow> jsstring) \<Rightarrow> (GenerateContentRequest \<Rightarrow> response) \<Rightarrow>
   LocationState \<Rightarrow> City \<Rightarrow> jsstring \<Rightarrow> jsstring \<Rightarrow> fetchError + json" where
  "fetchRecommendations numToString generateContent location city cuisine customQuery =
     parseReply (generateContent (buildRequest numToString location city cuisine customQuery))"

section \<open>The component \<open>App\<close>\<close>

definition CUISINES :: "jsstring list" where
  "CUISINES = map str [''Trending'', ''Turkish'', ''Shawarma'', ''Mandi'', ''Chinese'',
     ''Burgers'', ''Sushi'', ''Italian'', ''Indian'', ''Coffee'', ''Healthy'', ''Dessert'']"

definition noResultsMessage :: jsstring where
  "noResultsMessage = str ''No restaurants found. Try a different area or cuisine.''"

definition busyMessage :: jsstring where
  "busyMessage = str ''AI is busy analyzing tasty food. Please try again.''"

definition locationDeniedMessage :: jsstring where
  "locationDeniedMessage = str ''Could not access location. Please check permissions.''"

definition geoUnsupportedMessage :: jsstring where
  "geoUnsupportedMessage = str ''Geolocation is not supported by this browser.''"

record PositionOptions =
  enableHighAccuracy :: bool
  timeout :: nat
  maximumAge :: nat

text \<open>
  A call of \<open>getCurrentPosition\<close> that has not called back yet: its options, and the
  \<open>city\<close>, \<open>cuisine\<close> and \<open>customQuery\<close> that the success callback closed over.
\<close>

record GeoRequest =
  options :: PositionOptions
  closedCity :: City
  closedCuisine :: jsstring
  closedQuery :: jsstring

text \<open>
  The state variables of \<open>App\<close> that the search touches, and the asynchronous
  operations that are under way: the geolocation requests and the calls of the
  generation service that have not settled, in the order in which they were issued.
\<close>

record App =
  location :: LocationState
  city :: City
  cuisine :: jsstring
  customQuery :: jsstring
  results :: json
  loading :: bool
  loadingStep :: nat
  error :: "jsstring option"
  pendingGeo :: "GeoRequest list"
  pendingFetch :: "GenerateContentRequest list"

definition initialApp :: App where
  "initialApp =
     \<lparr>location = \<lparr>lat = 0, lng = 0, usingGPS = False\<rparr>, city = Dubai,
      cuisine = str ''Trending'', customQuery = [], results = JArray [], loading = False,
      loadingStep = 0, error = None, pendingGeo = [], pendingFetch = []\<rparr>"

text \<open>
  \<open>setLoading\<close> with the effect that depends on \<open>[loading]\<close>: the effect runs when the
  flag changes; when it has become true it sets \<open>loadingStep\<close> to 0 and starts the
  interval, and its cleanup stops the interval. A call that leaves the flag as it was
  runs no effect.
\<close>

definition setLoading :: "bool \<Rightarrow> App \<Rightarrow> App" where
  "setLoading b s =
     s\<lparr>loading := b, loadingStep := (if b \<and> \<not> loading s then 0 else loadingStep s)\<rparr>"

text \<open>
  \<open>data.length === 0\<close> on a value from \<open>JSON.parse\<close>: reading a property of \<open>null\<close>
  throws a \<open>TypeError\<close> (\<open>None\<close>); a number or a boolean has no \<open>length\<close>; an
  object has one when it has a member of that name. The comparison with 0 is on
  doubles: the literal of a number rounds to zero exactly when its absolute value is
  at most 2 to the power -1075, half of the smallest positive double.
\<close>

definition isZeroNumber :: "rat \<Rightarrow> bool" where
  "isZeroNumber q \<longleftrightarrow> \<bar>q\<bar> \<le> 1 / 2 ^ 1075"

definition lookupMember :: "(jsstring \<times> json) list \<Rightarrow> jsstring \<Rightarrow> json option" where
  "lookupMember ms k = map_of (rev ms) k"

fun lengthIsZero :: "json \<Rightarrow> bool option" where
  "lengthIsZero JNull = None"
| "lengthIsZero (JBool b) = Some False"
| "lengthIsZero (JNumber q) = Some False"
| "lengthIsZero (JString x) = Some (x = [])"
| "lengthIsZero (JArray vs) = Some (vs = [])"
| "lengthIsZero (JObject ms) =
     (case lookupMember ms (str ''length'') of
        Some (JNumber q) \<Rightarrow> Some (isZeroNumber q)
      | _ \<Rightarrow> Some False)"

text \<open>
  \<open>executeSearch\<close> up to its \<open>await\<close>: the three setters and the call of
  \<open>fetchRecommendations\<close>, which builds the request and sends it.
\<close>

definition executeSearchStart ::
  "(real \<Rightarrow> jsstring) \<Rightarrow> LocationState \<Rightarrow> City \<Rightarrow> jsstring \<Rightarrow> jsstring \<Rightarrow> App \<Rightarrow> App" where
  "executeSearchStart numToString loc selectedCity selectedCuisine query s =
     (setLoading True s)
       \<lparr>error := None, results := JArray [],
        pendingFetch :=
          pendingFetch s @ [buildRequest numToString loc selectedCity selectedCuisine query]\<rparr>"

text \<open>
  \<open>executeSearch\<close> after its \<open>await\<close>, on the outcome of \<open>fetchRecommendations\<close>: the
  \<open>try\<close> block stores the data and then reads \<open>data.length\<close>, the \<open>catch\<close> block
  takes over from wherever the \<open>try\<close> block threw, and \<open>finally\<close> clears the flag.
\<close>

definition executeSearchSettle :: "fetchError + json \<Rightarrow> App \<Rightarrow> App" where
  "executeSearchSettle outcome s =
     setLoading False
       (case outcome of
          Inl e \<Rightarrow> s\<lparr>error := Some busyMessage\<rparr>
        | Inr data \<Rightarrow>
            (case lengthIsZero data of
               None \<Rightarrow> s\<lparr>results := data, error := Some busyMessage\<rparr>
             | Some True \<Rightarrow> s\<lparr>results := data, error := Some noResultsMessage\<rparr>
             | Some False \<Rightarrow> s\<lparr>results := data\<rparr>))"

definition handleSearch :: "(real \<Rightarrow> jsstring) \<Rightarrow> App \<Rightarrow> App" where
  "handleSearch numToString s =
     executeSearchStart numToString (location s) (city s) (cuisine s) (customQuery s) s"

text \<open>
  \<open>handleGPSRequest\<close> up to the callbacks; \<open>geo\<close> tells whether
  \<open>navigator.geolocation\<close> exists.
\<close>

definition handleGPSRequest :: "bool \<Rightarrow> App \<Rightarrow> App" where
  "handleGPSRequest geo s =
     (if geo then
        (setLoading True s)
          \<lparr>pendingGeo := pendingGeo s @
             [\<lparr>options = \<lparr>enableHighAccuracy = True, timeout = 10000, maximumAge = 0\<rparr>,
               closedCity = city s, closedCuisine = cuisine s,
               closedQuery = customQuery s\<rparr>]\<rparr>
      else s\<lparr>error := Some geoUnsupportedMessage\<rparr>)"

definition positionSuccess ::
  "(real \<Rightarrow> jsstring) \<Rightarrow> GeoRequest \<Rightarrow> real \<Rightarrow> real \<Rightarrow> App \<Rightarrow> App" where
  "positionSuccess numToString g la lo s =
     (let newLoc = \<lparr>lat = la, lng = lo, usingGPS = True\<rparr> in
      executeSearchStart numToString newLoc (closedCity g) (closedCuisine g) (closedQuery g)
        (s\<lparr>location := newLoc\<rparr>))"

definition positionError :: "App \<Rightarrow> App" where
  "positionError s = setLoading False (s\<lparr>error := Some locationDeniedMessage\<rparr>)"

definition removeAt :: "nat \<Rightarrow> 'a list \<Rightarrow> 'a list" where
  "removeAt i xs = take i xs @ drop (Suc i) xs"

text \<open>
  What can happen to the component: the user's actions, the callbacks of the pending
  operations (named by their position among the pending ones), and the interval.
\<close>

datatype event =
    TypeQuery jsstring
  | PressEnter
  | ClickFind
  | ClickGPS
  | SelectCity City
  | SelectCuisine jsstring
  | GeoSuccess nat real real
  | GeoError nat
  | FetchSettled nat response
  | Tick

text \<open>
  \<open>handleEvent\<close> is what the handler of an event does to the state variables of a
  mounted component, all its setters taken together (React applies them in one
  batch). It is \<open>None\<close> for an event that the component cannot receive in the state:
  the find button is disabled while loading, the location button is rendered only
  while \<open>usingGPS\<close> is false, the cuisine buttons are those of \<open>CUISINES\<close>, a callback
  needs its pending operation and the interval exists only while \<open>loading\<close> is true.
  The Enter key of the input calls \<open>handleSearch\<close> in every state.
\<close>

fun handleEvent :: "(real \<Rightarrow> jsstring) \<Rightarrow> bool \<Rightarrow> App \<Rightarrow> event \<Rightarrow> App option" where
  "handleEvent ns geo s (TypeQuery q) = Some (s\<lparr>customQuery := q\<rparr>)"
| "handleEvent ns geo s PressEnter = Some (handleSearch ns s)"
| "handleEvent ns geo s ClickFind = (if loading s then None else Some (handleSearch ns s))"
| "handleEvent ns geo s ClickGPS =
     (if usingGPS (location s) then None else Some (handleGPSRequest geo s))"
| "handleEvent ns geo s (SelectCity c) =
     Some (s\<lparr>city := c, location := (location s)\<lparr>usingGPS := False\<rparr>\<rparr>)"
| "handleEvent ns geo s (SelectCuisine c) =
     (if c \<in> set CUISINES then Some (s\<lparr>cuisine := c, customQuery := []\<rparr>) else None)"
| "handleEvent ns geo s (GeoSuccess i la lo) =
     (if i < length (pendingGeo s)
      then Some (positionSuccess ns (pendingGeo s ! i) la lo
                   (s\<lparr>pendingGeo := removeAt i (pendingGeo s)\<rparr>))
      else None)"
| "handleEvent ns geo s (GeoError i) =
     (if i < length (pendingGeo s)
      then Some (positionError (s\<lparr>pendingGeo := removeAt i (pendingGeo s)\<rparr>))
      else None)"
| "handleEvent ns geo s (FetchSettled i r) =
     (if i < length (pendingFetch s)
      then Some (executeSearchSettle (parseReply r)
                   (s\<lparr>pendingFetch := removeAt i (pendingFetch s)\<rparr>))
      else None)"
| "handleEvent ns geo s Tick =
     (if loading s then Some (s\<lparr>loadingStep := (loadingStep s + 1) mod 5\<rparr>) else None)"

section \<open>The render\<close>

text \<open>
  After the handler of an event, React renders \<open>App\<close> in the new state. No error
  boundary is mounted, so an exception thrown while rendering unmounts the whole root:
  the page is empty from then on. What follows decides whether the render of \<open>App\<close>
  throws. Only the results grid can: it is evaluated when \<open>loading\<close> is false, reads
  \<open>results.length\<close>, calls \<open>results.map\<close> and renders a \<open>RestaurantCard\<close> for every
  element, each card with its overlays closed, as a new card is.

  The values are those of \<open>JSON.parse\<close>; a member that is missing reads as
  \<open>undefined\<close>, which is \<open>None\<close> here. None of the members that the render reads is
  defined on the prototypes of numbers, strings, arrays or objects, apart from the
  \<open>length\<close> of a string or array and the \<open>map\<close> of an array.
\<close>

definition truthy :: "json option \<Rightarrow> bool" where
  "truthy v =
     (case v of
        None \<Rightarrow> False
      | Some JNull \<Rightarrow> False
      | Some (JBool b) \<Rightarrow> b
      | Some (JNumber q) \<Rightarrow> \<not> isZeroNumber q
      | Some (JString x) \<Rightarrow> x \<noteq> []
      | Some (JArray vs) \<Rightarrow> True
      | Some (JObject ms) \<Rightarrow> True)"

text \<open>
  Whether a value converts to a primitive (in a template literal, or as an operand of
  \<open>>\<close>) without a \<open>TypeError\<close>. An object converts through
  \<open>Object.prototype.toString\<close> unless it has a member \<open>toString\<close> of its own, which
  is not callable and leaves no method that returns a primitive; an array converts
  through \<open>join\<close>, which converts its elements.
\<close>

fun stringable :: "json \<Rightarrow> bool" where
  "stringable (JObject ms) = (lookupMember ms (str ''toString'') = None)"
| "stringable (JArray vs) = list_all stringable vs"
| "stringable v = True"

text \<open>
  Whether React accepts a value as a child of an element: text, numbers, booleans
  and \<open>null\<close> are accepted, an array is when its elements are, and an object throws
  (\<open>Objects are not valid as a React child\<close>).
\<close>

fun validChild :: "json \<Rightarrow> bool" where
  "validChild (JObject ms) = False"
| "validChild (JArray vs) = list_all validChild vs"
| "validChild v = True"

definition validChildOpt :: "json option \<Rightarrow> bool" where
  "validChildOpt v = (case v of None \<Rightarrow> True | Some x \<Rightarrow> validChild x)"

text \<open>
  \<open>v > 0\<close> for a value that converts to a primitive. A string is converted by the
  grammar of numeric strings: surrounding white space, an optional sign before
  \<open>Infinity\<close> or a decimal literal (digits, a fraction or both, and an exponent), or
  an unsigned binary, octal or hexadecimal literal; anything else is \<open>NaN\<close>. A number
  is greater than 0 when its double is, that is when it exceeds half of the smallest
  positive double.
\<close>

definition exponentOf :: "jsstring \<Rightarrow> int option" where
  "exponentOf s = (case parseExp s of Some (e, []) \<Rightarrow> Some e | _ \<Rightarrow> None)"

definition decimalPositive :: "jsstring \<Rightarrow> bool" where
  "decimalPositive s =
     (let ip = takeWhile isDigit s;
          r1 = dropWhile isDigit s;
          dot = (r1 \<noteq> [] \<and> hd r1 = 0x2E);
          fp = (if dot then takeWhile isDigit (tl r1) else []);
          r2 = (if dot then dropWhile isDigit (tl r1) else r1)
      in if ip = [] \<and> fp = [] then False
         else (case exponentOf r2 of
                 None \<Rightarrow> False
               | Some e \<Rightarrow>
                   1 / 2 ^ 1075
                     < scale10 (of_nat (digitsVal ip) + of_nat (digitsVal fp) / 10 ^ length fp) e))"

definition radixPositive :: "jsstring \<Rightarrow> bool" where
  "radixPositive s =
     (case s of
        z # x # ds \<Rightarrow>
          z = 0x30 \<and> ds \<noteq> []
          \<and> ((x = 0x78 \<or> x = 0x58) \<and> list_all (\<lambda>d. hexVal d \<noteq> None) ds
             \<or> (x = 0x6F \<or> x = 0x4F) \<and> list_all (\<lambda>d. 0x30 \<le> d \<and> d \<le> 0x37) ds
             \<or> (x = 0x62 \<or> x = 0x42) \<and> list_all (\<lambda>d. d = 0x30 \<or> d = 0x31) ds)
          \<and> \<not> list_all (\<lambda>d. d = 0x30) ds
      | _ \<Rightarrow> False)"

definition stringPositive :: "jsstring \<Rightarrow> bool" where
  "stringPositive x =
     (case trim x of
        [] \<Rightarrow> False
      | c # cs \<Rightarrow>
          if c = 0x2D then False
          else if c = 0x2B then cs = str ''Infinity'' \<or> decimalPositive cs
          else c # cs = str ''Infinity'' \<or> decimalPositive (c # cs) \<or> radixPositive (c # cs))"

text \<open>
  An array converts to the texts of its elements joined by commas, where \<open>null\<close> is
  the empty text: with two or more elements the text has a comma and is \<open>NaN\<close>, with
  none it is empty and 0, and with one it is the text of the element (\<open>true\<close> and
  \<open>false\<close> are then texts, not numbers; the text of a number reads back as the
  number).
\<close>

fun greaterThanZero :: "json \<Rightarrow> bool" where
  "greaterThanZero JNull = False"
| "greaterThanZero (JBool b) = b"
| "greaterThanZero (JNumber q) = (1 / 2 ^ 1075 < q)"
| "greaterThanZero (JString x) = stringPositive x"
| "greaterThanZero (JArray [JBool b]) = False"
| "greaterThanZero (JArray [v]) = greaterThanZero v"
| "greaterThanZero (JArray vs) = False"
| "greaterThanZero (JObject ms) = False"

text \<open>
  The member \<open>length\<close> of a value that is not \<open>null\<close>.
\<close>

definition lengthOf :: "json \<Rightarrow> json option" where
  "lengthOf v =
     (case v of
        JString x \<Rightarrow> Some (JNumber (of_nat (length x)))
      | JArray vs \<Rightarrow> Some (JNumber (of_nat (length vs)))
      | JObject ms \<Rightarrow> lookupMember ms (str ''length'')
      | _ \<Rightarrow> None)"

definition stringableOpt :: "json option \<Rightarrow> bool" where
  "stringableOpt v = (case v of None \<Rightarrow> True | Some x \<Rightarrow> stringable x)"

text \<open>
  The render of a \<open>RestaurantCard\<close> for the element \<open>r\<close>, in the order of the source:
  the map address (\<open>r.lat && r.lng\<close>, then both in a template literal), the
  aggregators (\<open>r.likelyAggregators.length > 0\<close>), \<open>getPriceLabel(r.priceLevel)\<close>,
  which reads \<open>price.length\<close> and throws when the price level is missing or \<open>null\<close>,
  the phone link, and the members that are rendered as children. An element that is
  not an object has no \<open>priceLevel\<close> (and \<open>null\<close> has no members at all), so its card
  throws.
\<close>

definition mapAddressOk :: "json option \<Rightarrow> json option \<Rightarrow> bool" where
  "mapAddressOk la lo =
     (if truthy la \<and> truthy lo then stringableOpt la \<and> stringableOpt lo else True)"

definition aggregatorsOk :: "json option \<Rightarrow> bool" where
  "aggregatorsOk ag =
     (case ag of
        None \<Rightarrow> True
      | Some a \<Rightarrow> if truthy (Some a) then stringableOpt (lengthOf a) else True)"

definition priceLabelOk :: "json option \<Rightarrow> bool" where
  "priceLabelOk price = (case price of None \<Rightarrow> False | Some JNull \<Rightarrow> False | Some p \<Rightarrow> True)"

definition phoneLinkOk :: "json option \<Rightarrow> bool" where
  "phoneLinkOk ph = (if truthy ph then validChildOpt ph else True)"

definition rendersCard :: "json \<Rightarrow> bool" where
  "rendersCard r =
     (case r of
        JObject ms \<Rightarrow>
          mapAddressOk (lookupMember ms (str ''lat'')) (lookupMember ms (str ''lng''))
          \<and> aggregatorsOk (lookupMember ms (str ''likelyAggregators''))
          \<and> priceLabelOk (lookupMember ms (str ''priceLevel''))
          \<and> phoneLinkOk (lookupMember ms (str ''phoneNumber''))
          \<and> validChildOpt (lookupMember ms (str ''name''))
          \<and> validChildOpt (lookupMember ms (str ''cuisine''))
          \<and> validChildOpt (lookupMember ms (str ''rating''))
          \<and> validChildOpt (lookupMember ms (str ''reviewCount''))
          \<and> validChildOpt (lookupMember ms (str ''aiSummary''))
          \<and> validChildOpt (lookupMember ms (str ''address''))
      | _ \<Rightarrow> False)"

text \<open>
  The results grid, \<open>results.length > 0 && (... results.map(...))\<close>: \<open>null\<close> has no
  \<open>length\<close>; a number or a boolean has none either and nothing is rendered; a text
  or an object with a \<open>length\<close> above 0 has no function \<open>map\<close>; an array renders its
  cards.
\<close>

definition rendersResults :: "json \<Rightarrow> bool" where
  "rendersResults v =
     (case v of
        JNull \<Rightarrow> False
      | JBool b \<Rightarrow> True
      | JNumber q \<Rightarrow> True
      | JString x \<Rightarrow> x = []
      | JArray vs \<Rightarrow> list_all rendersCard vs
      | JObject ms \<Rightarrow>
          (case lookupMember ms (str ''length'') of
             None \<Rightarrow> True
           | Some l \<Rightarrow> stringable l \<and> \<not> greaterThanZero l))"

definition renders :: "App \<Rightarrow> bool" where
  "renders s \<longleftrightarrow> loading s \<or> rendersResults (results s)"

section \<open>The page\<close>

text \<open>
  The page is the mounted component in some state, or it has been unmounted by a
  render that threw. An unmounted page has no elements and no interval, so no action
  of the user and no tick reaches it; the callbacks of operations that were still
  pending find no component, and their setters change nothing.
\<close>

datatype page = Mounted App | Unmounted

definition commit :: "App \<Rightarrow> page" where
  "commit s = (if renders s then Mounted s else Unmounted)"

fun callback :: "event \<Rightarrow> bool" where
  "callback (GeoSuccess i la lo) = True"
| "callback (GeoError i) = True"
| "callback (FetchSettled i r) = True"
| "callback e = False"

fun step :: "(real \<Rightarrow> jsstring) \<Rightarrow> bool \<Rightarrow> page \<Rightarrow> event \<Rightarrow> page option" where
  "step ns geo (Mounted s) e = map_option commit (handleEvent ns geo s e)"
| "step ns geo Unmounted e = (if callback e then Some Unmounted else None)"

fun run :: "(real \<Rightarrow> jsstring) \<Rightarrow> bool \<Rightarrow> page \<Rightarrow> event list \<Rightarrow> page option" where
  "run ns geo p [] = Some p"
| "run ns geo p (e # es) =
     (case step ns geo p e of None \<Rightarrow> None | Some p' \<Rightarrow> run ns geo p' es)"

definition reachable :: "(real \<Rightarrow> jsstring) \<Rightarrow> bool \<Rightarrow> App \<Rightarrow> bool" where
  "reachable ns geo s \<longleftrightarrow> (\<exists>es. run ns geo (Mounted initialApp) es = Some (Mounted s))"

text \<open>The state that a page shows, when there is a page and it is mounted.\<close>

definition shown :: "page option \<Rightarrow> App option" where
  "shown p = (case p of Some (Mounted s) \<Rightarrow> Some s | _ \<Rightarrow> None)"




text \<open>
  A reply of the shape that the prompt asks for: an array with the record of
  \<open>jsonInstruction\<close>, under a name of its own, and the value that it parses to.
\<close>

definition exampleReply :: "string \<Rightarrow> jsstring" where
  \<open>exampleReply name = str (''[{"name":"'' @ name @ ''","rating":4.5,"reviewCount":120,''
     @ ''"priceLevel":"$$","cuisine":"Cuisine","address":"Full address here",''
     @ ''"lat":25.1234,"lng":55.1234,"phoneNumber":"+971 4 123 4567",''
     @ ''"aiSummary":"10 words max on why it's good.",''
     @ ''"likelyAggregators":["Talabat","Deliveroo"]}]'')\<close>

definition exampleResults :: "string \<Rightarrow> json" where
  "exampleResults name =
     JArray [JObject
       [(str ''name'', JString (str name)),
        (str ''rating'', JNumber 4.5),
        (str ''reviewCount'', JNumber 120),
        (str ''priceLevel'', JString (str ''$$'')),
        (str ''cuisine'', JString (str ''Cuisine'')),
        (str ''address'', JString (str ''Full address here'')),
        (str ''lat'', JNumber 25.1234),
        (str ''lng'', JNumber 55.1234),
        (str ''phoneNumber'', JString (str ''+971 4 123 4567'')),
        (str ''aiSummary'', JString (str ''10 words max on why it's good.'')),
        (str ''likelyAggregators'', JArray [JString (str ''Talabat''), JString (str ''Deliveroo'')])]]"

text \<open>
  The source has no phase variable. The phases of the search lifecycle are read off
  its flags: the component waits while \<open>loading\<close> is true, for a position as long as a
  geolocation request is pending and for the service otherwise; at rest, a message
  other than the no-results notice is an error, and results or the notice are a
  success.
\<close>

datatype phase = Idle | Locating | Loading | Success | Error

definition phaseOf :: "App \<Rightarrow> phase" where
  "phaseOf s =
     (if loading s then (if pendingGeo s \<noteq> [] then Locating else Loading)
      else (case error s of
              None \<Rightarrow> if results s = JArray [] then Idle else Success
            | Some m \<Rightarrow> if m = noResultsMessage then Success else Error))"

text \<open>
  What holds of the flags in every state that the component reaches: while it waits
  with no geolocation request pending, the results are empty and the only message
  possible is the one of a browser without geolocation; and the step counter stays
  below the number of steps.
\<close>

definition waitingInv :: "App \<Rightarrow> bool" where
  "waitingInv s \<longleftrightarrow>
     (loading s \<and> pendingGeo s = [] \<longrightarrow>
        results s = JArray [] \<and> (error s = None \<or> error s = Some geoUnsupportedMessage))
     \<and> loadingStep s < 5"

section \<open>The query subject\<close>

text \<open>
  Claim C2, as the source has it. The subject of the query follows a priority order:
  a custom query that is not blank after trimming is the subject, for every category,
  and it is used as typed, without being trimmed; for a blank custom query the
  category \<open>Trending\<close> gives the trending template, the category \<open>Chinese\<close> gives the
  text that names Motor City, Sports City and Dubai Production City, and any other
  category gives the category followed by \<open> restaurants\<close>.
\<close>

theorem query_subject_priority:
  assumes "trim q1 \<noteq> []" and "trim q2 = []"
    and "cu \<noteq> str ''Trending''" and "cu \<noteq> str ''Chinese''"
  shows "foodQuery c q1 = q1
    \<and> foodQuery (str ''Trending'') q2 = str ''popular trending restaurants''
    \<and> foodQuery (str ''Chinese'') q2 = chineseQuery
    \<and> chineseQuery = str ''Chinese restaurants, including options in ''
          @ str ''Motor City, Sports City, and Dubai Production City''
          @ str ''. Also include popular Fusion Chinese (Indo-Chinese) spots.''
    \<and> foodQuery cu q2 = cu @ str '' restaurants''"
  using assms
  by (simp add: foodQuery_def queryTerm_def trendingQuery_def chineseQuery_def str_def)

theorem query_subject_priority_witness:
  "trim (str ''karak tea '') \<noteq> [] \<and> trim (str ''  '') = []
   \<and> str ''Sushi'' \<noteq> str ''Trending'' \<and> str ''Sushi'' \<noteq> str ''Chinese''
   \<and> foodQuery (str ''Chinese'') (str ''karak tea '') = str ''karak tea ''
   \<and> foodQuery (str ''Sushi'') (str ''  '') = str ''Sushi restaurants''"
proof -
  have a: "trim (str ''karak tea '') \<noteq> []"
    by (simp add: trim_def str_def isWhiteSpace_def)
  have b: "trim (str ''  '') = []"
    by (simp add: trim_def str_def isWhiteSpace_def)
  have c: "str ''Sushi'' \<noteq> str ''Trending''"
    by (simp add: str_def)
  have d: "str ''Sushi'' \<noteq> str ''Chinese''"
    by (simp add: str_def)
  from query_subject_priority [OF a b c d, of "str ''Chinese''"] a b c d
  show ?thesis by (simp add: str_def)
qed

text \<open>
  Claim C2 as stated asks for the trimmed custom query. The source tests the trimmed
  text and sends the untrimmed one: the custom query \<open> pizza\<close>, with its leading
  space, is not blank, becomes the subject as it is, and differs from its trimmed form.
\<close>

theorem subject_is_trimmed_counterexample:
  "trim (str '' pizza'') \<noteq> []
   \<and> foodQuery (str ''Trending'') (str '' pizza'') = str '' pizza''
   \<and> foodQuery (str ''Trending'') (str '' pizza'') \<noteq> trim (str '' pizza'')"
  by (simp add: foodQuery_def trim_def str_def isWhiteSpace_def)

section \<open>The grounding mode\<close>

text \<open>
  Claim C4. With \<open>usingGPS\<close> set, the prompt asks for places within a radius of 8 km of
  the coordinates of the location, the request carries a retrieval configuration with
  exactly the latitude and longitude of the location, and the request does not depend
  on the selected city: no city stands in for the coordinates. With \<open>usingGPS\<close> clear,
  the prompt asks for places in the selected city, by its name, and no retrieval
  configuration is attached.
\<close>

theorem grounding_mode:
  assumes "usingGPS l1" and "\<not> usingGPS l2"
  shows \<open>buildRequest ns l1 c cu q =
      \<lparr>contents = str ''Find 30 distinct places matching "'' @ foodQuery cu q
         @ str ''" within a 8km radius of my current location (lat: '' @ ns (lat l1)
         @ str '', lng: '' @ ns (lng l1) @ gpsTail,
       retrievalConfig = Some \<lparr>latitude = lat l1, longitude = lng l1\<rparr>\<rparr>
    \<and> buildRequest ns l1 c cu q = buildRequest ns l1 c' cu q
    \<and> buildRequest ns l2 c cu q =
      \<lparr>contents = str ''Find 30 distinct places matching "'' @ foodQuery cu q
         @ str ''" in '' @ cityName c @ cityTail,
       retrievalConfig = None\<rparr>\<close>
  using assms by (simp add: buildRequest_def gpsPrompt_def cityPrompt_def)

theorem grounding_mode_witness:
  \<open>usingGPS \<lparr>lat = 25, lng = 55, usingGPS = True\<rparr>
   \<and> \<not> usingGPS \<lparr>lat = 0, lng = 0, usingGPS = False\<rparr>
   \<and> retrievalConfig (buildRequest (\<lambda>x. str ''0'') \<lparr>lat = 25, lng = 55, usingGPS = True\<rparr>
         AbuDhabi (str ''Sushi'') []) = Some \<lparr>latitude = 25, longitude = 55\<rparr>
   \<and> buildRequest (\<lambda>x. str ''0'') \<lparr>lat = 25, lng = 55, usingGPS = True\<rparr> AbuDhabi (str ''Sushi'') []
       = buildRequest (\<lambda>x. str ''0'') \<lparr>lat = 25, lng = 55, usingGPS = True\<rparr> Dubai (str ''Sushi'') []
   \<and> buildRequest (\<lambda>x. str ''0'') \<lparr>lat = 0, lng = 0, usingGPS = False\<rparr> AbuDhabi (str ''Sushi'') []
       = \<lparr>contents = str ''Find 30 distinct places matching "'' @ foodQuery (str ''Sushi'') []
            @ str ''" in '' @ str ''Abu Dhabi'' @ cityTail,
          retrievalConfig = None\<rparr>\<close>
proof -
  have a: "usingGPS \<lparr>lat = 25, lng = 55, usingGPS = True\<rparr>"
    by simp
  have b: "\<not> usingGPS \<lparr>lat = 0, lng = 0, usingGPS = False\<rparr>"
    by simp
  note g = grounding_mode [OF a b, of "\<lambda>x. str ''0''" AbuDhabi "str ''Sushi''" "[]" Dubai]
  from g have g1: "retrievalConfig (buildRequest (\<lambda>x. str ''0'')
      \<lparr>lat = 25, lng = 55, usingGPS = True\<rparr> AbuDhabi (str ''Sushi'') [])
      = Some \<lparr>latitude = 25, longitude = 55\<rparr>"
    by simp
  from g have g2: "buildRequest (\<lambda>x. str ''0'') \<lparr>lat = 25, lng = 55, usingGPS = True\<rparr>
      AbuDhabi (str ''Sushi'') []
      = buildRequest (\<lambda>x. str ''0'') \<lparr>lat = 25, lng = 55, usingGPS = True\<rparr>
          Dubai (str ''Sushi'') []"
    by (rule conjunct1 [OF conjunct2])
  from g have g3: \<open>buildRequest (\<lambda>x. str ''0'') \<lparr>lat = 0, lng = 0, usingGPS = False\<rparr>
      AbuDhabi (str ''Sushi'') []
      = \<lparr>contents = str ''Find 30 distinct places matching "'' @ foodQuery (str ''Sushi'') []
            @ str ''" in '' @ cityName AbuDhabi @ cityTail,
         retrievalConfig = None\<rparr>\<close>
    by (rule conjunct2 [OF conjunct2])
  from a b g1 g2 g3 show ?thesis
    by (simp only: cityName.simps simp_thms)
qed

section \<open>Lemmas on the string operations\<close>

lemma set_stripAll: "set (stripAll pat xs) \<subseteq> set xs"
proof (induction pat xs rule: stripAll.induct)
  case (1 pat)
  then show ?case by simp
next
  case (2 pat x xs)
  show ?case
  proof (cases "pat \<noteq> [] \<and> prefix pat (x # xs)")
    case True
    with 2 have "set (stripAll pat (x # xs)) \<subseteq> set (drop (length pat) (x # xs))"
      by simp
    also have "\<dots> \<subseteq> set (x # xs)"
      by (rule set_drop_subset)
    finally show ?thesis .
  next
    case False
    with 2 show ?thesis by auto
  qed
qed

lemma set_trim: "set (trim s) \<subseteq> set s"
proof -
  have "set (trim s) \<subseteq> set (dropWhile isWhiteSpace s)"
    unfolding trim_def using set_dropWhileD by fastforce
  also have "\<dots> \<subseteq> set s"
    using set_dropWhileD by fastforce
  finally show ?thesis .
qed

lemma indexOf_absent: "c \<notin> set s \<Longrightarrow> indexOf s c = -1"
  by (induction s) auto

lemma indexOf_first: "c \<notin> set p \<Longrightarrow> indexOf (p @ c # r) c = int (length p)"
proof (induction p)
  case Nil
  then show ?case by simp
next
  case (Cons a p)
  then show ?case by (auto simp: Let_def)
qed

lemma lastIndexOf_absent: "c \<notin> set s \<Longrightarrow> lastIndexOf s c = -1"
  by (simp add: lastIndexOf_def indexOf_absent)

lemma lastIndexOf_last:
  assumes "c \<notin> set q"
  shows "lastIndexOf (p @ c # q) c = int (length p)"
proof -
  have "indexOf (rev (p @ c # q)) c = indexOf (rev q @ c # rev p) c"
    by simp
  also have "\<dots> = int (length q)"
    using assms indexOf_first [of c "rev q" "rev p"] by simp
  finally show ?thesis
    by (simp add: lastIndexOf_def)
qed

lemma substring_middle:
  "substring (p @ m @ q) (int (length p)) (int (length p) + int (length m)) = m"
proof -
  let ?n = "int (length (p @ m @ q))"
  have a: "min (max (int (length p)) 0) ?n = int (length p)"
    by simp
  have b: "min (max (int (length p) + int (length m)) 0) ?n = int (length p) + int (length m)"
    by simp
  have "substring (p @ m @ q) (int (length p)) (int (length p) + int (length m))
      = take (length m) (drop (length p) (p @ m @ q))"
    unfolding substring_def Let_def a b by simp
  then show ?thesis by simp
qed

lemma prefix_append_notin:
  assumes "y \<notin> set pat"
  shows "prefix pat (xs @ y # ys) \<longleftrightarrow> prefix pat xs"
proof
  assume "prefix pat (xs @ y # ys)"
  then consider "prefix pat xs" | us where "pat = xs @ us" "prefix us (y # ys)"
    by (auto simp: prefix_append)
  then show "prefix pat xs"
  proof cases
    case 1
    then show ?thesis .
  next
    case 2
    show ?thesis
    proof (cases us)
      case Nil
      with 2 show ?thesis by simp
    next
      case (Cons u vs)
      with 2 have "u = y" by simp
      with 2 Cons assms show ?thesis by simp
    qed
  qed
next
  assume "prefix pat xs"
  then show "prefix pat (xs @ y # ys)"
    by (rule prefix_prefix)
qed

lemma stripAll_split:
  assumes "y \<notin> set pat"
  shows "stripAll pat (xs @ y # ys) = stripAll pat xs @ y # stripAll pat ys"
  using assms
proof (induction pat xs rule: stripAll.induct)
  case (1 pat)
  then have "\<not> prefix pat (y # ys) \<or> pat = []"
    by (cases pat) auto
  then show ?case by auto
next
  case (2 pat x xs)
  have eq: "prefix pat ((x # xs) @ y # ys) \<longleftrightarrow> prefix pat (x # xs)"
    using 2(3) by (rule prefix_append_notin)
  show ?case
  proof (cases "pat \<noteq> [] \<and> prefix pat (x # xs)")
    case True
    then have len: "length pat \<le> length (x # xs)"
      by (auto dest: prefix_length_le)
    have "drop (length pat) ((x # xs) @ y # ys)
        = drop (length pat) (x # xs) @ drop (length pat - length (x # xs)) (y # ys)"
      by (rule drop_append)
    with len have "drop (length pat) ((x # xs) @ y # ys) = drop (length pat) (x # xs) @ y # ys"
      by simp
    moreover have "stripAll pat (drop (length pat) (x # xs) @ y # ys)
        = stripAll pat (drop (length pat) (x # xs)) @ y # stripAll pat ys"
      using 2(1) [OF True 2(3)] .
    ultimately show ?thesis
      using True eq by simp
  next
    case False
    with 2(2) [OF False 2(3)] eq show ?thesis by auto
  qed
qed

lemma stripAll_absent: "\<not> sublist pat xs \<Longrightarrow> stripAll pat xs = xs"
proof (induction pat xs rule: stripAll.induct)
  case (1 pat)
  then show ?case by simp
next
  case (2 pat x xs)
  have np: "\<not> prefix pat (x # xs)"
    using 2(3) by (auto dest: prefix_imp_sublist)
  have "\<not> sublist pat xs"
    using 2(3) by (auto simp: sublist_Cons_right)
  with 2(2) np show ?case by simp
qed

lemma trim_keeps_core:
  assumes "\<not> isWhiteSpace a" and "\<not> isWhiteSpace b"
  shows "trim (p @ a # m @ b # q)
    = dropWhile isWhiteSpace p @ a # m @ b # rev (dropWhile isWhiteSpace (rev q))"
proof -
  have 1: "dropWhile isWhiteSpace (p @ a # m @ b # q) = dropWhile isWhiteSpace p @ a # m @ b # q"
    using assms(1) by (rule dropWhile_append3)
  have 2: "dropWhile isWhiteSpace (rev q @ b # (rev m @ a # rev (dropWhile isWhiteSpace p)))
      = dropWhile isWhiteSpace (rev q) @ b # (rev m @ a # rev (dropWhile isWhiteSpace p))"
    using assms(2) by (rule dropWhile_append3)
  have "trim (p @ a # m @ b # q)
      = rev (dropWhile isWhiteSpace (rev q @ b # (rev m @ a # rev (dropWhile isWhiteSpace p))))"
    unfolding trim_def 1 by simp
  then show ?thesis
    unfolding 2 by simp
qed


lemma brackets_not_in_fences:
  "0x5B \<notin> set fenceJson" "0x5D \<notin> set fenceJson" "0x5B \<notin> set fence" "0x5D \<notin> set fence"
  by (simp_all add: fence_def fenceJson_def str_def)

lemma brackets_not_whitespace: "\<not> isWhiteSpace 0x5B" "\<not> isWhiteSpace 0x5D"
  by (simp_all add: isWhiteSpace_def)

lemma fence_in_fenceJson: "sublist fence fenceJson"
proof -
  have "fenceJson = [] @ fence @ str ''json''"
    by (simp add: fence_def fenceJson_def str_def)
  then show ?thesis
    unfolding sublist_def by blast
qed

lemma stripAll_fences_wrapped:
  assumes "\<not> sublist pat mid" and "0x5B \<notin> set pat" and "0x5D \<notin> set pat"
  shows "stripAll pat (p @ 0x5B # mid @ 0x5D # q)
    = stripAll pat p @ 0x5B # mid @ 0x5D # stripAll pat q"
proof -
  have "stripAll pat (p @ 0x5B # (mid @ 0x5D # q))
      = stripAll pat p @ 0x5B # stripAll pat (mid @ 0x5D # q)"
    using assms(2) by (rule stripAll_split)
  moreover have "stripAll pat (mid @ 0x5D # q) = stripAll pat mid @ 0x5D # stripAll pat q"
    using assms(3) by (rule stripAll_split)
  moreover have "stripAll pat mid = mid"
    using assms(1) by (rule stripAll_absent)
  ultimately show ?thesis by simp
qed

lemma slice_wrapped:
  assumes "0x5B \<notin> set p" and "0x5D \<notin> set q"
  shows "(let t = p @ 0x5B # mid @ 0x5D # q;
              startIndex = indexOf t 0x5B;
              endIndex = lastIndexOf t 0x5D
          in if startIndex \<noteq> -1 \<and> endIndex \<noteq> -1
             then substring t startIndex (endIndex + 1) else t)
    = 0x5B # mid @ [0x5D]"
proof -
  let ?t = "p @ 0x5B # mid @ 0x5D # q"
  have i: "indexOf ?t 0x5B = int (length p)"
    using assms(1) by (rule indexOf_first)
  have "lastIndexOf ((p @ 0x5B # mid) @ 0x5D # q) 0x5D = int (length (p @ 0x5B # mid))"
    using assms(2) by (rule lastIndexOf_last)
  then have j: "lastIndexOf ?t 0x5D = int (length p) + int (length mid) + 1"
    by simp
  have "substring (p @ (0x5B # mid @ [0x5D]) @ q) (int (length p))
      (int (length p) + int (length (0x5B # mid @ [0x5D]))) = 0x5B # mid @ [0x5D]"
    by (rule substring_middle)
  then have "substring ?t (int (length p)) (int (length p) + int (length mid) + 1 + 1)
      = 0x5B # mid @ [0x5D]"
    by (simp add: add.commute add.left_commute)
  then show ?thesis
    unfolding Let_def i j by simp
qed

lemma set_dropWhile_subset: "set (dropWhile P xs) \<subseteq> set xs"
  by (auto dest: set_dropWhileD)

lemma set_stripAll_fences: "set (stripAll fence (stripAll fenceJson s)) \<subseteq> set s"
  using set_stripAll [of fence "stripAll fenceJson s"] set_stripAll [of fenceJson s]
  by (rule order_trans)

lemma normalizeText_wrapped:
  assumes "0x5B \<notin> set pre" and "0x5D \<notin> set post"
    and "\<not> sublist fence (0x5B # mid @ [0x5D])"
  shows "normalizeText (pre @ 0x5B # mid @ 0x5D # post) = 0x5B # mid @ [0x5D]"
proof -
  have "sublist mid (0x5B # mid @ [0x5D])"
    by (metis append_Cons append_Nil sublist_appendI)
  with assms(3) have m1: "\<not> sublist fence mid"
    using sublist_order.order_trans by blast
  with fence_in_fenceJson have m2: "\<not> sublist fenceJson mid"
    using sublist_order.order_trans by blast
  define p1 where "p1 = stripAll fence (stripAll fenceJson pre)"
  define q1 where "q1 = stripAll fence (stripAll fenceJson post)"
  define p2 where "p2 = dropWhile isWhiteSpace p1"
  define q2 where "q2 = rev (dropWhile isWhiteSpace (rev q1))"
  have s: "stripAll fence (stripAll fenceJson (pre @ 0x5B # mid @ 0x5D # post))
      = p1 @ 0x5B # mid @ 0x5D # q1"
    unfolding p1_def q1_def
    by (simp add: stripAll_fences_wrapped m1 m2 brackets_not_in_fences)
  have t: "trim (p1 @ 0x5B # mid @ 0x5D # q1) = p2 @ 0x5B # mid @ 0x5D # q2"
    unfolding p2_def q2_def by (rule trim_keeps_core) (rule brackets_not_whitespace)+
  have "set p2 \<subseteq> set p1"
    unfolding p2_def by (rule set_dropWhile_subset)
  also have "\<dots> \<subseteq> set pre"
    unfolding p1_def by (rule set_stripAll_fences)
  finally have a: "0x5B \<notin> set p2"
    using assms(1) by blast
  have "set q2 \<subseteq> set q1"
    unfolding q2_def using set_dropWhile_subset [of isWhiteSpace "rev q1"] by simp
  also have "\<dots> \<subseteq> set post"
    unfolding q1_def by (rule set_stripAll_fences)
  finally have b: "0x5D \<notin> set q2"
    using assms(2) by blast
  show ?thesis
    unfolding normalizeText_def s t using slice_wrapped [OF a b] .
qed


lemma no_backtick_no_fence: "0x60 \<notin> set xs \<Longrightarrow> \<not> sublist fence xs"
proof
  assume a: "0x60 \<notin> set xs" and b: "sublist fence xs"
  from b have "set fence \<subseteq> set xs"
    by (rule set_mono_sublist)
  moreover have "0x60 \<in> set fence"
    by (simp add: fence_def str_def)
  ultimately show False
    using a by blast
qed

lemma normalizeText_unsliced:
  assumes "0x5B \<notin> set text \<or> 0x5D \<notin> set text"
  shows "normalizeText text = trim (stripAll fence (stripAll fenceJson text))"
proof -
  let ?t = "trim (stripAll fence (stripAll fenceJson text))"
  have "set ?t \<subseteq> set text"
    using set_trim set_stripAll_fences by (rule order_trans)
  with assms have "0x5B \<notin> set ?t \<or> 0x5D \<notin> set ?t"
    by blast
  then have "indexOf ?t 0x5B = -1 \<or> lastIndexOf ?t 0x5D = -1"
    using indexOf_absent lastIndexOf_absent by blast
  then show ?thesis
    unfolding normalizeText_def Let_def by auto
qed

section \<open>Arrays wrapped in fences or prose\<close>

text \<open>
  Claim C3, as the source has it. The normalizer deletes the fence markers, trims, and
  cuts from the first \<open>[\<close> to the last \<open>]\<close>. For a text that starts with \<open>[\<close>, ends
  with \<open>]\<close> and contains no fence marker, wrapped in a prefix without \<open>[\<close> and a suffix
  without \<open>]\<close>, the normalized text is the inner text, so the reply parses to what the
  inner text parses to. The \<open>```json\<close> fences on lines of their own are such a prefix
  and suffix, and so is prose without brackets.
\<close>

theorem normalizer_recovers_wrapped_array:
  assumes "0x5B \<notin> set pre" and "0x5D \<notin> set post"
    and "\<not> sublist fence (0x5B # mid @ [0x5D])"
  shows "normalizeText (pre @ (0x5B # mid @ [0x5D]) @ post) = 0x5B # mid @ [0x5D]
    \<and> normalizeText (str ''```json\<newline>'' @ (0x5B # mid @ [0x5D]) @ str ''\<newline>```'')
        = 0x5B # mid @ [0x5D]
    \<and> parseReply (Replied (Some (pre @ (0x5B # mid @ [0x5D]) @ post)))
        = parseReply (Replied (Some (0x5B # mid @ [0x5D])))
    \<and> parseReply (Replied (Some (0x5B # mid @ [0x5D])))
        = (case JSON_parse (0x5B # mid @ [0x5D]) of
             None \<Rightarrow> Inl MalformedResponseError | Some v \<Rightarrow> Inr v)"
proof -
  have w: "normalizeText (p @ (0x5B # mid @ [0x5D]) @ q) = 0x5B # mid @ [0x5D]"
    if "0x5B \<notin> set p" and "0x5D \<notin> set q" for p q
    using normalizeText_wrapped [OF that assms(3)] by simp
  have 1: "normalizeText (pre @ (0x5B # mid @ [0x5D]) @ post) = 0x5B # mid @ [0x5D]"
    using assms(1,2) by (rule w)
  have 2: "normalizeText (str ''```json\<newline>'' @ (0x5B # mid @ [0x5D]) @ str ''\<newline>```'')
      = 0x5B # mid @ [0x5D]"
    by (rule w) (simp_all add: str_def)
  have 3: "normalizeText (0x5B # mid @ [0x5D]) = 0x5B # mid @ [0x5D]"
    using w [of "[]" "[]"] by simp
  show ?thesis
    using 1 2 3 by (simp add: parseReply_def)
qed

theorem normalizer_recovers_wrapped_array_witness:
  \<open>0x5B \<notin> set (str ''Sure! Here you go: '') \<and> 0x5D \<notin> set (str '' Hope that helps!'')
   \<and> \<not> sublist fence (0x5B # str ''{"name":"A"}'' @ [0x5D])
   \<and> normalizeText (str ''Sure! Here you go: [{"name":"A"}] Hope that helps!'')
       = str ''[{"name":"A"}]''
   \<and> normalizeText (str ''```json\<newline>[{"name":"A"}]\<newline>```'') = str ''[{"name":"A"}]''\<close>
proof -
  have a: "0x5B \<notin> set (str ''Sure! Here you go: '')"
    by (simp add: str_def)
  have b: "0x5D \<notin> set (str '' Hope that helps!'')"
    by (simp add: str_def)
  have c: \<open>\<not> sublist fence (0x5B # str ''{"name":"A"}'' @ [0x5D])\<close>
    by (rule no_backtick_no_fence) (simp add: str_def)
  from normalizer_recovers_wrapped_array [OF a b c] a b c
  show ?thesis by (simp add: str_def)
qed

text \<open>
  Claim C3 as stated covers every array in fences. The source deletes the fence
  markers everywhere in the text, also inside the strings of the array: the array
  with the one string of three backticks parses, inside \<open>```json\<close> fences, to the
  array with the empty string.
\<close>

theorem fenced_array_changed_counterexample:
  \<open>JSON_parse (str ''["```"]'') = Some (JArray [JString (str ''```'')])
   \<and> parseReply (Replied (Some (str ''```json\<newline>["```"]\<newline>```'')))
       = Inr (JArray [JString []])\<close>
  by code_simp

section \<open>The bound of the descent\<close>

text \<open>
  Every parser consumes text, so the nesting of the calls is bounded by the length of
  the text, and the bound that \<open>JSON_parse\<close> starts with is never used up: any
  larger bound gives the same result. A \<open>None\<close> of \<open>JSON_parse\<close> is therefore a
  syntax error of the text.
\<close>

lemma skipWs_Cons_length: "skipWs s = c # cs \<Longrightarrow> length cs < length s"
proof -
  assume a: "skipWs s = c # cs"
  have "length (skipWs s) \<le> length s"
    unfolding skipWs_def by (rule length_dropWhile_le)
  with a show ?thesis by simp
qed

lemma parseStringBody_length: "parseStringBody s = Some (x, r) \<Longrightarrow> length r < length s"
proof (induction s arbitrary: x r rule: parseStringBody.induct)
  case 1
  then show ?case by simp
next
  case (2 c cs)
  show ?case
    using "2.prems" "2.IH"
    by (fastforce split: if_splits list.splits option.splits prod.splits)
qed

lemma parseInt_length: "parseInt s = Some (i, r) \<Longrightarrow> length r < length s"
  using length_dropWhile_le [of isDigit "tl s"]
  by (cases s) (auto simp: parseInt_def split: if_splits)

lemma parseFrac_length: "parseFrac s = Some (f, r) \<Longrightarrow> length r \<le> length s"
  using length_dropWhile_le [of isDigit "tl s"]
  by (cases s) (auto simp: parseFrac_def Let_def split: if_splits)

lemma parseExpDigits_length: "parseExpDigits b s = Some (e, r) \<Longrightarrow> length r \<le> length s"
  using length_dropWhile_le [of isDigit s]
  by (auto simp: parseExpDigits_def Let_def split: if_splits)

lemma parseExp_length: "parseExp s = Some (e, r) \<Longrightarrow> length r \<le> length s"
  by (cases s) (auto simp: parseExp_def split: if_splits list.splits dest!: parseExpDigits_length)

lemma parseUnsigned_length: "parseUnsigned s = Some (q, r) \<Longrightarrow> length r < length s"
  by (auto simp: parseUnsigned_def split: option.splits prod.splits
      dest!: parseInt_length parseFrac_length parseExp_length)

lemma parseNumber_length: "parseNumber s = Some (q, r) \<Longrightarrow> length r < length s"
  by (cases s) (auto simp: parseNumber_def split: if_splits option.splits prod.splits
      dest!: parseUnsigned_length)


lemma parse_length:
  "(\<forall>s v r. parseValue n s = Some (v, r) \<longrightarrow> length r < length s)
   \<and> (\<forall>s vs r. parseElements n s = Some (vs, r) \<longrightarrow> length r < length s)
   \<and> (\<forall>s ms r. parseMembers n s = Some (ms, r) \<longrightarrow> length r < length s)"
proof (induction n)
  case 0
  show ?case by simp
next
  case (Suc n)
  have V: "parseValue n s = Some (v, r) \<Longrightarrow> length r < length s" for s v r
    using Suc by blast
  have E: "parseElements n s = Some (vs, r) \<Longrightarrow> length r < length s" for s vs r
    using Suc by blast
  have M: "parseMembers n s = Some (ms, r) \<Longrightarrow> length r < length s" for s ms r
    using Suc by blast
  have 1: "length r < length s" if "parseValue (Suc n) s = Some (v, r)" for s v r
  proof (cases "skipWs s")
    case Nil
    with that show ?thesis by simp
  next
    case (Cons c cs)
    note len = skipWs_Cons_length [OF Cons]
    have pre: "length (drop k (c # cs)) < length s" if "0 < k" for k
      using len that by simp
    show ?thesis
      using that Cons len pre [of 4] pre [of 5]
      by (auto split: if_splits list.splits option.splits prod.splits
          dest!: E M parseStringBody_length parseNumber_length skipWs_Cons_length)
  qed
  have 2: "length r < length s" if "parseElements (Suc n) s = Some (vs, r)" for s vs r
    using that
    by (auto split: if_splits list.splits option.splits prod.splits
        dest!: V E skipWs_Cons_length)
  have 3: "length r < length s" if "parseMembers (Suc n) s = Some (ms, r)" for s ms r
    using that
    by (auto split: if_splits list.splits option.splits prod.splits
        dest!: V M parseStringBody_length skipWs_Cons_length)
  from 1 2 3 show ?case by blast
qed


lemma parseValue_length: "parseValue n s = Some (v, r) \<Longrightarrow> length r < length s"
  using parse_length by blast

lemma parseValue_fuel_cong:
  assumes "\<And>c cs. skipWs s = c # cs \<Longrightarrow> parseElements k cs = parseElements n cs"
    and "\<And>c cs. skipWs s = c # cs \<Longrightarrow> parseMembers k cs = parseMembers n cs"
  shows "parseValue (Suc k) s = parseValue (Suc n) s"
  using assms by (cases "skipWs s") (auto split: list.splits)

lemma parseElements_fuel_cong:
  assumes "parseValue k s = parseValue n s"
    and "\<And>v r c cs. parseValue n s = Some (v, r) \<Longrightarrow> skipWs r = c # cs
           \<Longrightarrow> parseElements k cs = parseElements n cs"
  shows "parseElements (Suc k) s = parseElements (Suc n) s"
  using assms by (auto split: option.splits list.splits)

lemma parseMembers_fuel_cong:
  assumes "\<And>q qs x r0 colon r1. skipWs s = q # qs \<Longrightarrow> parseStringBody qs = Some (x, r0)
           \<Longrightarrow> skipWs r0 = colon # r1 \<Longrightarrow> parseValue k r1 = parseValue n r1"
    and "\<And>q qs x r0 colon r1 v r c cs. skipWs s = q # qs
           \<Longrightarrow> parseStringBody qs = Some (x, r0) \<Longrightarrow> skipWs r0 = colon # r1
           \<Longrightarrow> parseValue n r1 = Some (v, r) \<Longrightarrow> skipWs r = c # cs
           \<Longrightarrow> parseMembers k cs = parseMembers n cs"
  shows "parseMembers (Suc k) s = parseMembers (Suc n) s"
  using assms by (auto split: option.splits list.splits)

lemma fuel_step:
  "(\<forall>s. 2 * length s + 1 \<le> n \<longrightarrow> parseValue (Suc n) s = parseValue n s)
   \<and> (\<forall>s. 2 * length s + 2 \<le> n \<longrightarrow> parseElements (Suc n) s = parseElements n s)
   \<and> (\<forall>s. 2 * length s + 1 \<le> n \<longrightarrow> parseMembers (Suc n) s = parseMembers n s)"
proof (induction n)
  case 0
  show ?case by simp
next
  case (Suc n)
  have V: "parseValue (Suc n) s = parseValue n s" if "2 * length s + 1 \<le> n" for s
    using Suc that by blast
  have E: "parseElements (Suc n) s = parseElements n s" if "2 * length s + 2 \<le> n" for s
    using Suc that by blast
  have M: "parseMembers (Suc n) s = parseMembers n s" if "2 * length s + 1 \<le> n" for s
    using Suc that by blast
  have 1: "parseValue (Suc (Suc n)) s = parseValue (Suc n) s"
    if b: "2 * length s + 1 \<le> Suc n" for s
  proof (rule parseValue_fuel_cong)
    fix c cs
    assume "skipWs s = c # cs"
    from skipWs_Cons_length [OF this] b have l: "2 * length cs + 2 \<le> n"
      by simp
    then show "parseElements (Suc n) cs = parseElements n cs"
      by (rule E)
    from l show "parseMembers (Suc n) cs = parseMembers n cs"
      by (intro M) simp
  qed
  have 2: "parseElements (Suc (Suc n)) s = parseElements (Suc n) s"
    if b: "2 * length s + 2 \<le> Suc n" for s
  proof (rule parseElements_fuel_cong)
    from b show "parseValue (Suc n) s = parseValue n s"
      by (intro V) simp
  next
    fix v r c cs
    assume "parseValue n s = Some (v, r)" and "skipWs r = c # cs"
    from parseValue_length [OF this(1)] skipWs_Cons_length [OF this(2)] b
    show "parseElements (Suc n) cs = parseElements n cs"
      by (intro E) simp
  qed
  have 3: "parseMembers (Suc (Suc n)) s = parseMembers (Suc n) s"
    if b: "2 * length s + 1 \<le> Suc n" for s
  proof (rule parseMembers_fuel_cong)
    fix q qs x r0 colon r1
    assume a: "skipWs s = q # qs" "parseStringBody qs = Some (x, r0)" "skipWs r0 = colon # r1"
    note l = skipWs_Cons_length [OF a(1)] parseStringBody_length [OF a(2)]
      skipWs_Cons_length [OF a(3)]
    from l b show "parseValue (Suc n) r1 = parseValue n r1"
      by (intro V) simp
    fix v r c cs
    assume "parseValue n r1 = Some (v, r)" and "skipWs r = c # cs"
    from parseValue_length [OF this(1)] skipWs_Cons_length [OF this(2)] l b
    show "parseMembers (Suc n) cs = parseMembers n cs"
      by (intro M) simp
  qed
  from 1 2 3 show ?case by blast
qed

lemma parseValue_fuel:
  assumes "2 * length s + 1 \<le> n" and "n \<le> m"
  shows "parseValue m s = parseValue n s"
  using assms(2,1)
proof (induction m rule: dec_induct)
  case base
  show ?case by simp
next
  case (step k)
  then have "parseValue (Suc k) s = parseValue k s"
    using fuel_step [of k] by simp
  with step show ?case by simp
qed

lemma JSON_parse_fuel:
  assumes "2 * length text + 2 \<le> m"
  shows "(case parseValue m text of
            None \<Rightarrow> None
          | Some (v, r) \<Rightarrow> if skipWs r = [] then Some v else None) = JSON_parse text"
proof -
  have "parseValue m text = parseValue (2 * length text + 2) text"
    using assms by (intro parseValue_fuel) simp_all
  then show ?thesis
    by (simp add: JSON_parse_def)
qed

section \<open>Replies that are empty, malformed or not arrays\<close>

lemma parse_empty_array: "JSON_parse (normalizeText (str ''[]'')) = Some (JArray [])"
  by code_simp

lemma parse_not_json_at_all:
  "JSON_parse (trim (stripAll fence (stripAll fenceJson (str ''not json at all'')))) = None"
  by code_simp

lemma parse_42:
  "JSON_parse (trim (stripAll fence (stripAll fenceJson (str ''42'')))) = Some (JNumber 42)"
  by code_simp

lemma parse_null:
  "JSON_parse (trim (stripAll fence (stripAll fenceJson (str ''null'')))) = Some JNull"
  by code_simp

lemma reply_rejected: "parseReply Rejected = Inl UpstreamError"
  by (simp add: parseReply_def)

lemma messages_distinct:
  "busyMessage \<noteq> noResultsMessage" "locationDeniedMessage \<noteq> noResultsMessage"
  "geoUnsupportedMessage \<noteq> noResultsMessage"
  by (simp_all add: busyMessage_def noResultsMessage_def locationDeniedMessage_def
      geoUnsupportedMessage_def str_def)

lemma handleSearch_pending: "0 < length (pendingFetch (handleSearch ns s))"
  by (simp add: handleSearch_def executeSearchStart_def)

text \<open>
  Claim C5. A reply whose text is absent or empty makes \<open>fetchRecommendations\<close> return
  the empty array, not an error, and so does the reply \<open>[]\<close>. When such a reply
  settles a pending search, the component ends with no results, the no-results
  notice as its message and the loading flag cleared: a success with an advisory, not
  the error phase.
\<close>

theorem empty_reply_is_success:
  assumes "i < length (pendingFetch s)"
    and "r = Replied None \<or> r = Replied (Some []) \<or> r = Replied (Some (str ''[]''))"
  shows "parseReply r = Inr (JArray [])
    \<and> fetchRecommendations ns (\<lambda>req. r) loc c cu q = Inr (JArray [])
    \<and> (\<exists>s'. handleEvent ns geo s (FetchSettled i r) = Some s'
          \<and> step ns geo (Mounted s) (FetchSettled i r) = Some (Mounted s')
          \<and> results s' = JArray [] \<and> error s' = Some noResultsMessage
          \<and> \<not> loading s' \<and> phaseOf s' = Success)"
proof -
  have ne: "str ''[]'' \<noteq> []"
    by (simp add: str_def)
  have p: "parseReply r = Inr (JArray [])"
    using assms(2) ne by (auto simp: parseReply_def parse_empty_array)
  show ?thesis
    using assms(1) p
    by (simp add: fetchRecommendations_def executeSearchSettle_def setLoading_def phaseOf_def
        commit_def renders_def rendersResults_def)
qed

theorem empty_reply_is_success_witness:
  "0 < length (pendingFetch (handleSearch (\<lambda>x. []) initialApp))
   \<and> map_option phaseOf (handleEvent (\<lambda>x. []) True (handleSearch (\<lambda>x. []) initialApp)
        (FetchSettled 0 (Replied (Some (str ''[]''))))) = Some Success
   \<and> map_option error (handleEvent (\<lambda>x. []) True (handleSearch (\<lambda>x. []) initialApp)
        (FetchSettled 0 (Replied (Some (str ''[]''))))) = Some (Some noResultsMessage)
   \<and> map_option phaseOf (shown (step (\<lambda>x. []) True (Mounted (handleSearch (\<lambda>x. []) initialApp))
        (FetchSettled 0 (Replied (Some (str ''[]'')))))) = Some Success"
proof -
  have a: "0 < length (pendingFetch (handleSearch (\<lambda>x. []) initialApp))"
    by (rule handleSearch_pending)
  from empty_reply_is_success [OF a, of "Replied (Some (str ''[]''))" "\<lambda>x. []" _ _ _ _ True]
  obtain s' where "handleEvent (\<lambda>x. []) True (handleSearch (\<lambda>x. []) initialApp)
        (FetchSettled 0 (Replied (Some (str ''[]'')))) = Some s'"
     "step (\<lambda>x. []) True (Mounted (handleSearch (\<lambda>x. []) initialApp))
        (FetchSettled 0 (Replied (Some (str ''[]'')))) = Some (Mounted s')"
     "error s' = Some noResultsMessage" "phaseOf s' = Success"
    by blast
  with a show ?thesis by (simp add: shown_def)
qed

text \<open>
  Claim C6, as the source has it. For a reply that is not empty, lacks \<open>[\<close> or \<open>]\<close>,
  and whose text after the removal of the fence markers and trimming does not parse
  as JSON, \<open>fetchRecommendations\<close> fails with the error of the parser. The component
  then shows the generic busy message, the same message as for a failure of the
  service, so the user never sees the parse error.
\<close>

theorem unparseable_reply_is_rejected:
  assumes "text \<noteq> []" and "0x5B \<notin> set text \<or> 0x5D \<notin> set text"
    and "JSON_parse (trim (stripAll fence (stripAll fenceJson text))) = None"
    and "i < length (pendingFetch s)"
  shows "parseReply (Replied (Some text)) = Inl MalformedResponseError
    \<and> fetchRecommendations ns (\<lambda>req. Replied (Some text)) loc c cu q
        = Inl MalformedResponseError
    \<and> (\<exists>s'. handleEvent ns geo s (FetchSettled i (Replied (Some text))) = Some s'
          \<and> error s' = Some busyMessage \<and> phaseOf s' = Error)
    \<and> map_option error (handleEvent ns geo s (FetchSettled i (Replied (Some text))))
        = map_option error (handleEvent ns geo s (FetchSettled i Rejected))
    \<and> step ns geo (Mounted s) (FetchSettled i (Replied (Some text)))
        = step ns geo (Mounted s) (FetchSettled i Rejected)"
proof -
  have "normalizeText text = trim (stripAll fence (stripAll fenceJson text))"
    using assms(2) by (rule normalizeText_unsliced)
  with assms(1,3) have p: "parseReply (Replied (Some text)) = Inl MalformedResponseError"
    by (simp add: parseReply_def)
  show ?thesis
    using assms(4) p reply_rejected
    by (simp add: fetchRecommendations_def executeSearchSettle_def setLoading_def phaseOf_def
        messages_distinct)
qed

theorem unparseable_reply_is_rejected_witness:
  "str ''not json at all'' \<noteq> []
   \<and> 0x5B \<notin> set (str ''not json at all'') \<and> 0x5D \<notin> set (str ''not json at all'')
   \<and> JSON_parse (trim (stripAll fence (stripAll fenceJson (str ''not json at all'')))) = None
   \<and> 0 < length (pendingFetch (handleSearch (\<lambda>x. []) initialApp))
   \<and> parseReply (Replied (Some (str ''not json at all''))) = Inl MalformedResponseError
   \<and> map_option error (handleEvent (\<lambda>x. []) True (handleSearch (\<lambda>x. []) initialApp)
        (FetchSettled 0 (Replied (Some (str ''not json at all''))))) = Some (Some busyMessage)"
proof -
  have a: "str ''not json at all'' \<noteq> []"
    by (simp add: str_def)
  have b1: "0x5B \<notin> set (str ''not json at all'')"
    and b2: "0x5D \<notin> set (str ''not json at all'')"
    by (simp_all add: str_def)
  from b1 have b: "0x5B \<notin> set (str ''not json at all'') \<or> 0x5D \<notin> set (str ''not json at all'')"
    by (rule disjI1)
  note c = parse_not_json_at_all
  have d: "0 < length (pendingFetch (handleSearch (\<lambda>x. []) initialApp))"
    by (rule handleSearch_pending)
  from unparseable_reply_is_rejected [OF a b c d, of "\<lambda>x. []" _ _ _ _ True]
  obtain s' where "parseReply (Replied (Some (str ''not json at all''))) = Inl MalformedResponseError"
    "handleEvent (\<lambda>x. []) True (handleSearch (\<lambda>x. []) initialApp)
        (FetchSettled 0 (Replied (Some (str ''not json at all'')))) = Some s'"
    "error s' = Some busyMessage"
    by blast
  with a b1 b2 c d show ?thesis by simp
qed

text \<open>
  Claim C6 as stated covers every reply without brackets that does not parse. The
  empty reply is one (\<open>JSON.parse\<close> rejects the empty text), and the source returns
  the empty array for it before it reaches the parser. A number between fence markers
  is another when the reply is taken as it arrives: it does not parse with the
  markers, and the source parses it without them.
\<close>

theorem empty_reply_not_rejected_counterexample:
  "0x5B \<notin> set ([] :: jsstring) \<and> 0x5D \<notin> set ([] :: jsstring)
   \<and> JSON_parse [] = None \<and> parseReply (Replied (Some [])) = Inr (JArray [])
   \<and> 0x5B \<notin> set (str ''```42```'') \<and> 0x5D \<notin> set (str ''```42```'')
   \<and> JSON_parse (str ''```42```'') = None
   \<and> parseReply (Replied (Some (str ''```42```''))) = Inr (JNumber 42)"
  by code_simp

text \<open>
  Claim C9, as the source has it. The normalizer checks that the text parses and
  nothing more: for a reply that is not empty and lacks \<open>[\<close> or \<open>]\<close>,
  \<open>fetchRecommendations\<close> returns whatever value the text parses to once the fence
  markers are removed and it is trimmed, array or not, as if it were the list of
  restaurants. The replies \<open>42\<close> and \<open>null\<close> are returned as the number and as
  \<open>null\<close>.
\<close>

theorem non_array_value_is_returned:
  assumes "text \<noteq> []" and "0x5B \<notin> set text \<or> 0x5D \<notin> set text"
    and "JSON_parse (trim (stripAll fence (stripAll fenceJson text))) = Some v"
  shows "parseReply (Replied (Some text)) = Inr v
    \<and> fetchRecommendations ns (\<lambda>req. Replied (Some text)) loc c cu q = Inr v"
proof -
  have "normalizeText text = trim (stripAll fence (stripAll fenceJson text))"
    using assms(2) by (rule normalizeText_unsliced)
  with assms(1,3) show ?thesis
    by (simp add: parseReply_def fetchRecommendations_def)
qed

theorem non_array_value_is_returned_witness:
  "str ''42'' \<noteq> [] \<and> str ''null'' \<noteq> []
   \<and> 0x5B \<notin> set (str ''42'') \<and> 0x5D \<notin> set (str ''null'')
   \<and> parseReply (Replied (Some (str ''42''))) = Inr (JNumber 42)
   \<and> parseReply (Replied (Some (str ''null''))) = Inr JNull"
proof -
  have a: "str ''42'' \<noteq> []" and a': "str ''null'' \<noteq> []"
    by (simp_all add: str_def)
  have b: "0x5B \<notin> set (str ''42'')" and b': "0x5D \<notin> set (str ''null'')"
    by (simp_all add: str_def)
  from non_array_value_is_returned [OF a disjI1 [OF b] parse_42]
    non_array_value_is_returned [OF a' disjI2 [OF b'] parse_null] a a' b b'
  show ?thesis by simp
qed

text \<open>
  Claim C9 as stated has the parsed value of the reply returned. The fence markers
  are deleted before the text is parsed, also inside a string: the reply that is the
  JSON string of three backticks, a valid value without brackets, comes back as the
  empty string.
\<close>

theorem string_value_changed_counterexample:
  \<open>0x5B \<notin> set (str ''"```"'') \<and> 0x5D \<notin> set (str ''"```"'')
   \<and> JSON_parse (str ''"```"'') = Some (JString (str ''```''))
   \<and> parseReply (Replied (Some (str ''"```"''))) = Inr (JString [])\<close>
  by code_simp

section \<open>Replies that render\<close>

text \<open>
  A value that the descent finds with some fuel is found with any larger fuel, so a
  parse that is run with enough fuel for the nesting of a text gives the value of
  \<open>JSON_parse\<close>.
\<close>

lemma parseValue_more_cong:
  assumes "parseValue (Suc n) s = Some x"
    and "\<And>cs. parseElements n cs \<noteq> None \<Longrightarrow> parseElements k cs = parseElements n cs"
    and "\<And>cs. parseMembers n cs \<noteq> None \<Longrightarrow> parseMembers k cs = parseMembers n cs"
  shows "parseValue (Suc k) s = Some x"
proof -
  have "parseValue (Suc k) s = parseValue (Suc n) s"
  proof (cases "skipWs s")
    case Nil
    then show ?thesis by simp
  next
    case (Cons c cs)
    show ?thesis
    proof (cases "skipWs cs")
      case Nil
      with Cons show ?thesis by simp
    next
      case c2: (Cons d ds)
      consider "c = 0x5B" "d \<noteq> 0x5D" | "c \<noteq> 0x5B" "c = 0x7B" "d \<noteq> 0x7D"
        | "c = 0x5B" "d = 0x5D" | "c \<noteq> 0x5B" "c = 0x7B" "d = 0x7D"
        | "c \<noteq> 0x5B" "c \<noteq> 0x7B"
        by blast
      then show ?thesis
      proof cases
        case 1
        with assms(1) Cons c2 have "parseElements n cs \<noteq> None"
          by (auto split: option.splits)
        then have "parseElements k cs = parseElements n cs"
          by (rule assms(2))
        with Cons c2 1 show ?thesis by simp
      next
        case 2
        with assms(1) Cons c2 have "parseMembers n cs \<noteq> None"
          by (auto split: option.splits)
        then have "parseMembers k cs = parseMembers n cs"
          by (rule assms(3))
        with Cons c2 2 show ?thesis by simp
      next
        case 3
        with Cons c2 show ?thesis by simp
      next
        case 4
        with Cons c2 show ?thesis by simp
      next
        case 5
        with Cons c2 show ?thesis by simp
      qed
    qed
  qed
  with assms(1) show ?thesis by simp
qed

lemma parseElements_more_cong:
  assumes "parseElements (Suc n) s = Some x"
    and "\<And>cs. parseValue n cs \<noteq> None \<Longrightarrow> parseValue k cs = parseValue n cs"
    and "\<And>cs. parseElements n cs \<noteq> None \<Longrightarrow> parseElements k cs = parseElements n cs"
  shows "parseElements (Suc k) s = Some x"
proof -
  from assms(1) obtain v r where v: "parseValue n s = Some (v, r)"
    by (cases "parseValue n s") auto
  then have vk: "parseValue k s = Some (v, r)"
    using assms(2) [of s] by simp
  have "parseElements (Suc k) s = parseElements (Suc n) s"
  proof (cases "skipWs r")
    case Nil
    with v vk show ?thesis by simp
  next
    case (Cons c cs)
    show ?thesis
    proof (cases "c = 0x2C")
      case True
      with assms(1) v Cons have "parseElements n cs \<noteq> None"
        by (auto split: option.splits)
      then have "parseElements k cs = parseElements n cs"
        by (rule assms(3))
      with v vk Cons True show ?thesis by simp
    next
      case False
      with v vk Cons show ?thesis by simp
    qed
  qed
  with assms(1) show ?thesis by simp
qed

lemma parseMembers_more_cong:
  assumes "parseMembers (Suc n) s = Some x"
    and "\<And>cs. parseValue n cs \<noteq> None \<Longrightarrow> parseValue k cs = parseValue n cs"
    and "\<And>cs. parseMembers n cs \<noteq> None \<Longrightarrow> parseMembers k cs = parseMembers n cs"
  shows "parseMembers (Suc k) s = Some x"
proof -
  have "parseMembers (Suc k) s = parseMembers (Suc n) s"
  proof (cases "skipWs s")
    case Nil
    then show ?thesis by simp
  next
    case q: (Cons q qs)
    show ?thesis
    proof (cases "q = 0x22")
      case False
      with q show ?thesis by simp
    next
      case quote: True
      show ?thesis
      proof (cases "parseStringBody qs")
        case None
        with q quote show ?thesis by simp
      next
        case (Some kr)
        obtain key r0 where kr: "kr = (key, r0)" by (cases kr)
        show ?thesis
        proof (cases "skipWs r0")
          case Nil
          with q quote Some kr show ?thesis by simp
        next
          case colon: (Cons c r1)
          show ?thesis
          proof (cases "c = 0x3A")
            case False
            with q quote Some kr colon show ?thesis by simp
          next
            case True
            with assms(1) q quote Some kr colon obtain v r
              where v: "parseValue n r1 = Some (v, r)"
              by (cases "parseValue n r1") auto
            then have vk: "parseValue k r1 = Some (v, r)"
              using assms(2) [of r1] by simp
            show ?thesis
            proof (cases "skipWs r")
              case Nil
              with q quote Some kr colon True v vk show ?thesis by simp
            next
              case comma: (Cons d ds)
              show ?thesis
              proof (cases "d = 0x2C")
                case False
                with q quote Some kr colon True v vk comma show ?thesis by simp
              next
                case c: True
                with assms(1) q quote Some kr colon True v comma
                have "parseMembers n ds \<noteq> None"
                  by (auto split: option.splits)
                then have "parseMembers k ds = parseMembers n ds"
                  by (rule assms(3))
                with q quote Some kr colon True v vk comma c show ?thesis by simp
              qed
            qed
          qed
        qed
      qed
    qed
  qed
  with assms(1) show ?thesis by simp
qed

lemma fuel_more:
  "(\<forall>s x. parseValue n s = Some x \<longrightarrow> parseValue (Suc n) s = Some x)
   \<and> (\<forall>s x. parseElements n s = Some x \<longrightarrow> parseElements (Suc n) s = Some x)
   \<and> (\<forall>s x. parseMembers n s = Some x \<longrightarrow> parseMembers (Suc n) s = Some x)"
proof (induction n)
  case 0
  show ?case by simp
next
  case (Suc n)
  have V: "parseValue n s \<noteq> None \<Longrightarrow> parseValue (Suc n) s = parseValue n s" for s
    using Suc by auto
  have E: "parseElements n s \<noteq> None \<Longrightarrow> parseElements (Suc n) s = parseElements n s" for s
    using Suc by auto
  have M: "parseMembers n s \<noteq> None \<Longrightarrow> parseMembers (Suc n) s = parseMembers n s" for s
    using Suc by auto
  have 1: "parseValue (Suc (Suc n)) s = Some x" if "parseValue (Suc n) s = Some x" for s x
    using that E M by (rule parseValue_more_cong)
  have 2: "parseElements (Suc (Suc n)) s = Some x" if "parseElements (Suc n) s = Some x" for s x
    using that V E by (rule parseElements_more_cong)
  have 3: "parseMembers (Suc (Suc n)) s = Some x" if "parseMembers (Suc n) s = Some x" for s x
    using that V M by (rule parseMembers_more_cong)
  from 1 2 3 show ?case by blast
qed

lemma parseValue_more:
  assumes "parseValue n s = Some x" and "n \<le> m"
  shows "parseValue m s = Some x"
  using assms(2,1)
proof (induction m rule: dec_induct)
  case base
  then show ?case by simp
next
  case (step k)
  then show ?case
    using fuel_more [of k] by blast
qed

lemma JSON_parse_by_fuel:
  assumes "parseValue n text = Some (v, r)" and "skipWs r = []"
  shows "JSON_parse text = Some v"
proof -
  have "parseValue (2 * length text + 2) text = Some (v, r)"
  proof (cases "n \<le> 2 * length text + 2")
    case True
    with assms(1) show ?thesis by (rule parseValue_more)
  next
    case False
    then have "parseValue n text = parseValue (2 * length text + 2) text"
      by (intro parseValue_fuel) simp_all
    with assms(1) show ?thesis by simp
  qed
  with assms(2) show ?thesis
    by (simp add: JSON_parse_def)
qed

text \<open>
  The replies of the prompt's shape parse to their records, and the records render.
\<close>

lemmas parser_defs =
  str_def skipWs_def isJsonWs_def isDigit_def parseNumber_def parseUnsigned_def parseInt_def
  parseFrac_def parseExp_def parseExpDigits_def scale10_def digitsVal_def escapeChar_def
  hexVal_def Let_def

lemma exampleReply_parse:
  assumes "parseValue k (exampleReply n) = Some (exampleResults n, [])"
    and "0x60 \<notin> set (str n)"
  shows "parseReply (Replied (Some (exampleReply n))) = Inr (exampleResults n)"
proof -
  obtain mid where m: "exampleReply n = 0x5B # mid @ [0x5D]" and b: "0x60 \<notin> set mid"
  proof
    show \<open>exampleReply n = 0x5B # str (''{"name":"'' @ n @ ''","rating":4.5,"reviewCount":120,''
     @ ''"priceLevel":"$$","cuisine":"Cuisine","address":"Full address here",''
     @ ''"lat":25.1234,"lng":55.1234,"phoneNumber":"+971 4 123 4567",''
     @ ''"aiSummary":"10 words max on why it's good.",''
     @ ''"likelyAggregators":["Talabat","Deliveroo"]}'') @ [0x5D]\<close>
      by (simp add: exampleReply_def str_def)
    show \<open>0x60 \<notin> set (str (''{"name":"'' @ n @ ''","rating":4.5,"reviewCount":120,''
     @ ''"priceLevel":"$$","cuisine":"Cuisine","address":"Full address here",''
     @ ''"lat":25.1234,"lng":55.1234,"phoneNumber":"+971 4 123 4567",''
     @ ''"aiSummary":"10 words max on why it's good.",''
     @ ''"likelyAggregators":["Talabat","Deliveroo"]}''))\<close>
      using assms(2) by (simp add: str_def)
  qed
  have "\<not> sublist fence (0x5B # mid @ [0x5D])"
    by (rule no_backtick_no_fence) (simp add: b)
  then have "normalizeText ([] @ 0x5B # mid @ 0x5D # []) = 0x5B # mid @ [0x5D]"
    by (intro normalizeText_wrapped) simp_all
  then have "normalizeText (exampleReply n) = exampleReply n"
    by (simp add: m)
  moreover have "JSON_parse (exampleReply n) = Some (exampleResults n)"
    using assms(1) by (rule JSON_parse_by_fuel) (simp add: skipWs_def)
  moreover have "exampleReply n \<noteq> []"
    by (simp add: m)
  ultimately show ?thesis
    by (simp add: parseReply_def)
qed

lemma reply_near_me:
  "parseReply (Replied (Some (exampleReply ''Near me''))) = Inr (exampleResults ''Near me'')"
  by (rule exampleReply_parse
      [of "Suc (Suc (Suc (Suc (Suc (Suc (Suc (Suc (Suc (Suc (Suc (Suc (Suc (Suc (Suc (Suc (Suc (Suc (Suc (Suc 0)))))))))))))))))))"])
    (simp_all add: exampleReply_def exampleResults_def parser_defs)

lemma reply_dubai_pick:
  "parseReply (Replied (Some (exampleReply ''Dubai pick''))) = Inr (exampleResults ''Dubai pick'')"
  by (rule exampleReply_parse
      [of "Suc (Suc (Suc (Suc (Suc (Suc (Suc (Suc (Suc (Suc (Suc (Suc (Suc (Suc (Suc (Suc (Suc (Suc (Suc (Suc 0)))))))))))))))))))"])
    (simp_all add: exampleReply_def exampleResults_def parser_defs)

lemma exampleResults_render: "rendersResults (exampleResults n)"
  by (simp add: rendersResults_def rendersCard_def exampleResults_def lookupMember_def
      mapAddressOk_def aggregatorsOk_def priceLabelOk_def phoneLinkOk_def validChildOpt_def
      stringableOpt_def truthy_def lengthOf_def isZeroNumber_def str_def)

lemma exampleResults_nonempty:
  "exampleResults n \<noteq> JArray []" "lengthIsZero (exampleResults n) = Some False"
  by (simp_all add: exampleResults_def)

lemma rendersResults_empty: "rendersResults (JArray [])"
  by (simp add: rendersResults_def)

lemma reply_empty_array: "parseReply (Replied (Some (str ''[]''))) = Inr (JArray [])"
proof -
  have "str ''[]'' \<noteq> []"
    by (simp add: str_def)
  then show ?thesis
    by (simp add: parseReply_def parse_empty_array)
qed

section \<open>The search lifecycle\<close>

lemmas orchestrator_defs =
  initialApp_def handleSearch_def executeSearchStart_def setLoading_def
  handleGPSRequest_def positionSuccess_def positionError_def executeSearchSettle_def
  removeAt_def Let_def

lemmas page_defs =
  commit_def renders_def shown_def rendersResults_empty exampleResults_render
  exampleResults_nonempty





lemma step_mounted:
  "step ns geo (Mounted s) e = Some (Mounted s') \<Longrightarrow> handleEvent ns geo s e = Some s'"
  by (auto simp: commit_def split: if_splits)


lemma run_unmounted: "run ns geo Unmounted es = Some p \<Longrightarrow> p = Unmounted"
  by (induction es) (auto split: if_splits)












text \<open>
  Claim C7, as the source has it. Pressing the location button, in a browser with
  geolocation, sets the loading flag and requests a position with high accuracy, a
  timeout of 10 seconds and no cached position; the results, the message and the
  pending calls of the service stay as they were, and the callback will search with
  the city, cuisine and query of that moment. When the request fails or times out,
  the message is the one about location permissions, the loading flag is cleared,
  the phase is the error phase, the results are still as they were, and no call of
  the service has been added. When the position arrives, the results and the message
  are cleared and the request with the coordinates is sent.
\<close>

theorem gps_request_and_failure:
  assumes "\<not> usingGPS (location s)" and "j < length (pendingGeo t)"
    and "k < length (pendingGeo u)"
  shows "(\<exists>s'. handleEvent ns True s ClickGPS = Some s'
          \<and> step ns True (Mounted s) ClickGPS = Some (Mounted s')
          \<and> s' = s\<lparr>loading := True,
                   loadingStep := (if loading s then loadingStep s else 0),
                   pendingGeo := pendingGeo s @
                     [\<lparr>options = \<lparr>enableHighAccuracy = True, timeout = 10000,
                                   maximumAge = 0\<rparr>,
                       closedCity = city s, closedCuisine = cuisine s,
                       closedQuery = customQuery s\<rparr>]\<rparr>)
    \<and> (\<exists>t'. handleEvent ns geo t (GeoError j) = Some t'
          \<and> step ns geo (Mounted t) (GeoError j)
              = Some (if rendersResults (results t) then Mounted t' else Unmounted)
          \<and> phaseOf t' = Error \<and> error t' = Some locationDeniedMessage
          \<and> \<not> loading t' \<and> pendingFetch t' = pendingFetch t \<and> results t' = results t)
    \<and> (\<exists>u'. handleEvent ns geo u (GeoSuccess k la lo) = Some u'
          \<and> step ns geo (Mounted u) (GeoSuccess k la lo) = Some (Mounted u')
          \<and> results u' = JArray [] \<and> error u' = None \<and> loading u'
          \<and> location u' = \<lparr>lat = la, lng = lo, usingGPS = True\<rparr>
          \<and> pendingFetch u' = pendingFetch u @
               [buildRequest ns \<lparr>lat = la, lng = lo, usingGPS = True\<rparr>
                  (closedCity (pendingGeo u ! k)) (closedCuisine (pendingGeo u ! k))
                  (closedQuery (pendingGeo u ! k))])"
  using assms
  by (simp add: handleGPSRequest_def setLoading_def positionError_def phaseOf_def
      positionSuccess_def executeSearchStart_def Let_def messages_distinct
      commit_def renders_def)

theorem gps_request_and_failure_witness:
  \<open>let s1 = initialApp\<lparr>results := exampleResults ''Near me''\<rparr>
   in shown (run (\<lambda>x. []) True (Mounted initialApp)
        [PressEnter, FetchSettled 0 (Replied (Some (exampleReply ''Near me'')))]) = Some s1
      \<and> \<not> usingGPS (location s1)
      \<and> 0 < length (pendingGeo (handleGPSRequest True s1))
      \<and> map_option (\<lambda>x. (results x, error x, loading x, map options (pendingGeo x)))
          (shown (step (\<lambda>x. []) True (Mounted s1) ClickGPS))
          = Some (exampleResults ''Near me'', None, True,
                  [\<lparr>enableHighAccuracy = True, timeout = 10000, maximumAge = 0\<rparr>])
      \<and> map_option (\<lambda>x. (phaseOf x, error x, results x, pendingFetch x))
          (shown (step (\<lambda>x. []) True (Mounted (handleGPSRequest True s1)) (GeoError 0)))
          = Some (Error, Some locationDeniedMessage, exampleResults ''Near me'', [])
      \<and> map_option (\<lambda>x. (results x, error x, loading x, map retrievalConfig (pendingFetch x)))
          (shown (step (\<lambda>x. []) True (Mounted (handleGPSRequest True s1)) (GeoSuccess 0 25 55)))
          = Some (JArray [], None, True, [Some \<lparr>latitude = 25, longitude = 55\<rparr>])\<close>
proof -
  define s1 where "s1 = initialApp\<lparr>results := exampleResults ''Near me''\<rparr>"
  define s2 where "s2 = handleGPSRequest True s1"
  have reach: "shown (run (\<lambda>x. []) True (Mounted initialApp)
        [PressEnter, FetchSettled 0 (Replied (Some (exampleReply ''Near me'')))]) = Some s1"
    by (simp add: s1_def reply_near_me orchestrator_defs page_defs)
  have a: "\<not> usingGPS (location s1)"
    by (simp add: s1_def initialApp_def)
  have b: "0 < length (pendingGeo s2)"
    by (simp add: s2_def handleGPSRequest_def)
  have s1: "results s1 = exampleResults ''Near me''" "error s1 = None" "pendingGeo s1 = []"
    by (simp_all add: s1_def initialApp_def)
  have s2: "results s2 = exampleResults ''Near me''" "pendingFetch s2 = []"
    by (simp_all add: s2_def s1_def handleGPSRequest_def setLoading_def initialApp_def)
  note g = gps_request_and_failure [OF a b b, of "\<lambda>x. []" True 25 55]
  from g obtain s' where "step (\<lambda>x. []) True (Mounted s1) ClickGPS = Some (Mounted s')"
    "s' = s1\<lparr>loading := True,
              loadingStep := (if loading s1 then loadingStep s1 else 0),
              pendingGeo := pendingGeo s1 @
                [\<lparr>options = \<lparr>enableHighAccuracy = True, timeout = 10000, maximumAge = 0\<rparr>,
                  closedCity = city s1, closedCuisine = cuisine s1,
                  closedQuery = customQuery s1\<rparr>]\<rparr>"
    by blast
  with s1 have 1: "map_option (\<lambda>x. (results x, error x, loading x, map options (pendingGeo x)))
          (shown (step (\<lambda>x. []) True (Mounted s1) ClickGPS))
          = Some (exampleResults ''Near me'', None, True,
                  [\<lparr>enableHighAccuracy = True, timeout = 10000, maximumAge = 0\<rparr>])"
    by (simp add: shown_def del: step.simps)
  from g obtain t' where
    "step (\<lambda>x. []) True (Mounted s2) (GeoError 0)
       = Some (if rendersResults (results s2) then Mounted t' else Unmounted)"
    "phaseOf t' = Error" "error t' = Some locationDeniedMessage"
    "pendingFetch t' = pendingFetch s2" "results t' = results s2"
    by blast
  with s2 have 2: "map_option (\<lambda>x. (phaseOf x, error x, results x, pendingFetch x))
          (shown (step (\<lambda>x. []) True (Mounted s2) (GeoError 0)))
          = Some (Error, Some locationDeniedMessage, exampleResults ''Near me'', [])"
    by (simp add: shown_def exampleResults_render del: step.simps)
  from g obtain u' where
    "step (\<lambda>x. []) True (Mounted s2) (GeoSuccess 0 25 55) = Some (Mounted u')"
    "results u' = JArray []" "error u' = None" "loading u'"
    "pendingFetch u' = pendingFetch s2 @
               [buildRequest (\<lambda>x. []) \<lparr>lat = 25, lng = 55, usingGPS = True\<rparr>
                  (closedCity (pendingGeo s2 ! 0)) (closedCuisine (pendingGeo s2 ! 0))
                  (closedQuery (pendingGeo s2 ! 0))]"
    by blast
  with s2 have 3: "map_option
          (\<lambda>x. (results x, error x, loading x, map retrievalConfig (pendingFetch x)))
          (shown (step (\<lambda>x. []) True (Mounted s2) (GeoSuccess 0 25 55)))
          = Some (JArray [], None, True, [Some \<lparr>latitude = 25, longitude = 55\<rparr>])"
    by (simp add: shown_def buildRequest_def del: step.simps)
  from reach a b 1 2 3 show ?thesis
    unfolding Let_def s1_def s2_def by blast
qed

text \<open>
  Claim C7 as stated has the results and the message cleared when the GPS search
  starts. \<open>handleGPSRequest\<close> sets the loading flag only: after a search that found a
  place, the place is still in the results once the button is pressed, and after a
  search that failed, the busy message is still there.
\<close>

theorem gps_start_keeps_state_counterexample:
  \<open>map_option (\<lambda>x. (results x, loading x, length (pendingGeo x)))
      (shown (run (\<lambda>x. []) True (Mounted initialApp)
         [PressEnter, FetchSettled 0 (Replied (Some (exampleReply ''Near me''))), ClickGPS]))
     = Some (exampleResults ''Near me'', True, 1)
   \<and> exampleResults ''Near me'' \<noteq> JArray []
   \<and> map_option (\<lambda>x. (error x, loading x, length (pendingGeo x)))
      (shown (run (\<lambda>x. []) True (Mounted initialApp)
         [PressEnter, FetchSettled 0 Rejected, ClickGPS]))
     = Some (Some busyMessage, True, 1)\<close>
  by (simp add: reply_near_me reply_rejected orchestrator_defs page_defs)

text \<open>
  The invariant \<open>waitingInv\<close> holds at the start and is kept by every event.
\<close>

lemma waitingInv_initial: "waitingInv initialApp"
  by (simp add: waitingInv_def initialApp_def)

lemma waitingInv_handle:
  "waitingInv s \<Longrightarrow> handleEvent ns geo s e = Some s' \<Longrightarrow> waitingInv s'"
  by (cases e)
    (auto simp: waitingInv_def handleSearch_def executeSearchStart_def setLoading_def
      handleGPSRequest_def positionSuccess_def positionError_def executeSearchSettle_def
      Let_def split: if_splits sum.splits option.splits bool.splits)

lemma waitingInv_run:
  "waitingInv s \<Longrightarrow> run ns geo (Mounted s) es = Some (Mounted s') \<Longrightarrow> waitingInv s'"
proof (induction es arbitrary: s)
  case Nil
  then show ?case by simp
next
  case (Cons e es)
  from Cons.prems(2) obtain s1 where h: "handleEvent ns geo s e = Some s1"
    and r: "run ns geo (commit s1) es = Some (Mounted s')"
    by (auto split: option.splits)
  from Cons.prems(1) h have i: "waitingInv s1"
    by (rule waitingInv_handle)
  show ?case
  proof (cases "renders s1")
    case True
    with r have "run ns geo (Mounted s1) es = Some (Mounted s')"
      by (simp add: commit_def)
    with i show ?thesis
      by (rule Cons.IH)
  next
    case False
    with r have "run ns geo Unmounted es = Some (Mounted s')"
      by (simp add: commit_def)
    then show ?thesis
      by (auto dest: run_unmounted)
  qed
qed

lemma progress_handle:
  "handleEvent ns geo s e = Some s' \<Longrightarrow>
     (if \<not> loading s \<and> loading s' then loadingStep s' = 0
      else if e = Tick then loading s \<and> loadingStep s' = (loadingStep s + 1) mod 5
      else loadingStep s' = loadingStep s)"
  by (cases e)
    (auto simp: handleSearch_def executeSearchStart_def setLoading_def
      handleGPSRequest_def positionSuccess_def positionError_def executeSearchSettle_def
      Let_def split: if_splits sum.splits option.splits bool.splits)

text \<open>
  Claim C8, as the source has it. In every state that the component reaches: results
  that are not empty occur in the success phase, in the error phase and while
  locating, never while loading; a message occurs in the error phase, in the success
  phase and while locating, and while loading only as the message of a browser
  without geolocation; the step counter is below 5. Whatever the handler of an event
  does in such a state, the step counter is 0 afterwards when the event takes the
  component from a phase at rest into a waiting phase; otherwise a tick, which
  happens in a waiting phase only, advances it by one modulo 5, and every other event
  leaves it as it was.
\<close>

theorem lifecycle_invariant:
  assumes "reachable ns geo s"
  shows "(results s \<noteq> JArray [] \<longrightarrow> phaseOf s \<in> {Success, Error, Locating})
    \<and> (error s \<noteq> None \<longrightarrow>
         phaseOf s \<in> {Error, Success, Locating}
         \<or> (phaseOf s = Loading \<and> error s = Some geoUnsupportedMessage))
    \<and> loadingStep s < 5
    \<and> (\<forall>e s'. handleEvent ns geo s e = Some s' \<longrightarrow>
          (if phaseOf s \<notin> {Locating, Loading} \<and> phaseOf s' \<in> {Locating, Loading}
           then loadingStep s' = 0
           else if e = Tick
           then phaseOf s \<in> {Locating, Loading}
             \<and> loadingStep s' = (loadingStep s + 1) mod 5
           else loadingStep s' = loadingStep s))"
proof -
  from assms obtain es where "run ns geo (Mounted initialApp) es = Some (Mounted s)"
    unfolding reachable_def by blast
  with waitingInv_initial have i: "waitingInv s"
    by (rule waitingInv_run)
  have waiting: "phaseOf x \<in> {Locating, Loading} \<longleftrightarrow> loading x" for x
    by (simp add: phaseOf_def split: option.splits)
  have a: "results s \<noteq> JArray [] \<longrightarrow> phaseOf s \<in> {Success, Error, Locating}"
    using i by (auto simp: waitingInv_def phaseOf_def split: option.splits)
  have b: "error s \<noteq> None \<longrightarrow>
         phaseOf s \<in> {Error, Success, Locating}
         \<or> (phaseOf s = Loading \<and> error s = Some geoUnsupportedMessage)"
    using i by (auto simp: waitingInv_def phaseOf_def split: option.splits)
  have c: "loadingStep s < 5"
    using i by (simp add: waitingInv_def)
  have d: "\<forall>e s'. handleEvent ns geo s e = Some s' \<longrightarrow>
          (if phaseOf s \<notin> {Locating, Loading} \<and> phaseOf s' \<in> {Locating, Loading}
           then loadingStep s' = 0
           else if e = Tick
           then phaseOf s \<in> {Locating, Loading}
             \<and> loadingStep s' = (loadingStep s + 1) mod 5
           else loadingStep s' = loadingStep s)"
    unfolding waiting using progress_handle by blast
  from a b c d show ?thesis by blast
qed

theorem lifecycle_invariant_witness:
  \<open>let s0 = initialApp\<lparr>results := exampleResults ''Dubai pick'', loadingStep := 2,
        error := Some locationDeniedMessage\<rparr>
   in shown (run (\<lambda>x. []) True (Mounted initialApp)
        [PressEnter, FetchSettled 0 (Replied (Some (exampleReply ''Dubai pick''))),
         ClickGPS, Tick, Tick, GeoError 0]) = Some s0
      \<and> reachable (\<lambda>x. []) True s0
      \<and> results s0 \<noteq> JArray [] \<and> error s0 \<noteq> None \<and> phaseOf s0 = Error
      \<and> loadingStep s0 = 2
      \<and> map_option (\<lambda>x. (phaseOf x, loadingStep x)) (handleEvent (\<lambda>x. []) True s0 PressEnter)
          = Some (Loading, 0)
      \<and> map_option (\<lambda>x. (phaseOf x, loadingStep x)) (handleEvent (\<lambda>x. []) True s0 ClickGPS)
          = Some (Locating, 0)
      \<and> map_option (\<lambda>x. (phaseOf x, loadingStep x))
          (handleEvent (\<lambda>x. []) True s0 (TypeQuery (str ''sushi'')))
          = Some (Error, 2)\<close>
proof -
  define s0 where "s0 = initialApp\<lparr>results := exampleResults ''Dubai pick'', loadingStep := 2,
        error := Some locationDeniedMessage\<rparr>"
  have run: "run (\<lambda>x. []) True (Mounted initialApp)
        [PressEnter, FetchSettled 0 (Replied (Some (exampleReply ''Dubai pick''))),
         ClickGPS, Tick, Tick, GeoError 0] = Some (Mounted s0)"
    by (simp add: s0_def reply_dubai_pick orchestrator_defs page_defs)
  then have r: "reachable (\<lambda>x. []) True s0"
    unfolding reachable_def by blast
  have n: "results s0 \<noteq> JArray []" "error s0 \<noteq> None" "phaseOf s0 = Error"
    "loadingStep s0 = 2"
    by (simp_all add: s0_def initialApp_def exampleResults_nonempty phaseOf_def
        messages_distinct)
  have h: "handleEvent (\<lambda>x. []) True s0 PressEnter = Some (handleSearch (\<lambda>x. []) s0)"
    "handleEvent (\<lambda>x. []) True s0 ClickGPS = Some (handleGPSRequest True s0)"
    "handleEvent (\<lambda>x. []) True s0 (TypeQuery (str ''sushi''))
       = Some (s0\<lparr>customQuery := str ''sushi''\<rparr>)"
    by (simp_all add: s0_def initialApp_def)
  have p: "phaseOf (handleSearch (\<lambda>x. []) s0) = Loading"
    "phaseOf (handleGPSRequest True s0) = Locating"
    "phaseOf (s0\<lparr>customQuery := str ''sushi''\<rparr>) = Error"
    by (simp_all add: s0_def initialApp_def phaseOf_def handleSearch_def
        executeSearchStart_def handleGPSRequest_def setLoading_def messages_distinct)
  from lifecycle_invariant [OF r] have d: "handleEvent (\<lambda>x. []) True s0 e = Some s' \<Longrightarrow>
          (if phaseOf s0 \<notin> {Locating, Loading} \<and> phaseOf s' \<in> {Locating, Loading}
           then loadingStep s' = 0
           else if e = Tick
           then phaseOf s0 \<in> {Locating, Loading}
             \<and> loadingStep s' = (loadingStep s0 + 1) mod 5
           else loadingStep s' = loadingStep s0)" for e s'
    by blast
  from d [OF h(1)] d [OF h(2)] d [OF h(3)] n p
  have "loadingStep (handleSearch (\<lambda>x. []) s0) = 0"
    "loadingStep (handleGPSRequest True s0) = 0"
    "loadingStep (s0\<lparr>customQuery := str ''sushi''\<rparr>) = 2"
    by simp_all
  with h p have
    "map_option (\<lambda>x. (phaseOf x, loadingStep x)) (handleEvent (\<lambda>x. []) True s0 PressEnter)
          = Some (Loading, 0)"
    "map_option (\<lambda>x. (phaseOf x, loadingStep x)) (handleEvent (\<lambda>x. []) True s0 ClickGPS)
          = Some (Locating, 0)"
    "map_option (\<lambda>x. (phaseOf x, loadingStep x))
          (handleEvent (\<lambda>x. []) True s0 (TypeQuery (str ''sushi'')))
          = Some (Error, 2)"
    by simp_all
  moreover from run have "shown (run (\<lambda>x. []) True (Mounted initialApp)
        [PressEnter, FetchSettled 0 (Replied (Some (exampleReply ''Dubai pick''))),
         ClickGPS, Tick, Tick, GeoError 0]) = Some s0"
    by (simp add: shown_def)
  ultimately show ?thesis
    using r n unfolding Let_def s0_def by blast
qed

text \<open>
  Claim C8 as stated has results only in the success phase, a message only in the
  error phase, and the step counter at 0 when a search starts. After a search that
  found a place, pressing the location button sets the loading flag and leaves the
  results: the component is locating and the place is still in its results. After a
  search that found nothing, the no-results notice is the message of the success
  phase. And when the position arrives after two ticks of waiting for it, the search
  starts with the step counter at 2.
\<close>

theorem results_while_locating_counterexample:
  \<open>map_option (\<lambda>x. (results x, phaseOf x))
      (shown (run (\<lambda>x. []) True (Mounted initialApp)
         [PressEnter, FetchSettled 0 (Replied (Some (exampleReply ''Dubai pick''))), ClickGPS]))
     = Some (exampleResults ''Dubai pick'', Locating)
   \<and> exampleResults ''Dubai pick'' \<noteq> JArray []
   \<and> map_option (\<lambda>x. (error x, phaseOf x))
      (shown (run (\<lambda>x. []) True (Mounted initialApp)
         [PressEnter, FetchSettled 0 (Replied (Some (str ''[]'')))]))
     = Some (Some noResultsMessage, Success)
   \<and> map_option (\<lambda>x. (phaseOf x, loadingStep x, length (pendingFetch x)))
      (shown (run (\<lambda>x. []) True (Mounted initialApp) [ClickGPS, Tick, Tick]))
     = Some (Locating, 2, 0)
   \<and> map_option (\<lambda>x. (phaseOf x, loadingStep x, length (pendingFetch x)))
      (shown (run (\<lambda>x. []) True (Mounted initialApp)
         [ClickGPS, Tick, Tick, GeoSuccess 0 25 55]))
     = Some (Loading, 2, 1)\<close>
  by (simp add: reply_dubai_pick reply_empty_array orchestrator_defs page_defs phaseOf_def)

end
